theory Spec2Isabelle
  imports Main "HOL-Library.Sublist"
begin

section \<open>Exceptions\<close>

text \<open>
  Every exception the modelled code can raise is a value of \<open>error\<close>; a function that
  may raise returns \<open>error + 'a\<close>, with \<open>Inl\<close> for the exception. \<open>bind_err\<close>
  sequences two steps and stops at the first exception.
\<close>

datatype error =
    ValueError string
  | ValidationError "string list"
  | KeyError string
  | IndexError
  | OSError string
  | AgentError string

definition bind_err :: "error + 'a \<Rightarrow> ('a \<Rightarrow> error + 'b) \<Rightarrow> error + 'b" where
  "bind_err m f = (case m of Inl e \<Rightarrow> Inl e | Inr x \<Rightarrow> f x)"

section \<open>Python strings, lists and dictionaries\<close>

text \<open>
  A Python \<open>str\<close> is a \<open>string\<close>, so the characters of the model are the code
  points 0 to 255; those that cannot be written inside a literal are given by their
  code.
\<close>

abbreviation newline :: char where "newline \<equiv> CHR 0x0A"
abbreviation dquote :: char where "dquote \<equiv> CHR 0x22"
abbreviation backslash :: char where "backslash \<equiv> CHR 0x5C"

definition startswith :: "string \<Rightarrow> string \<Rightarrow> bool" where
  "startswith s p = (take (length p) s = p)"

definition endswith :: "string \<Rightarrow> string \<Rightarrow> bool" where
  "endswith s p = (length p \<le> length s \<and> drop (length s - length p) s = p)"

text \<open>\<open>s.find(sub)\<close>: the lowest index at which \<open>sub\<close> occurs in \<open>s\<close>, or \<open>-1\<close>.\<close>

fun str_find :: "string \<Rightarrow> string \<Rightarrow> int" where
  "str_find [] sub = (if sub = [] then 0 else - 1)"
| "str_find (c # cs) sub =
     (if startswith (c # cs) sub then 0
      else (let r = str_find cs sub in if r = - 1 then - 1 else r + 1))"

text \<open>
  \<open>s[a:b]\<close>: a negative index counts from the end, both indices are clamped to the
  string, and the slice is empty when the upper index does not exceed the lower one.
\<close>

definition slice_index :: "nat \<Rightarrow> int \<Rightarrow> nat" where
  "slice_index n i = (if i < 0 then nat (max 0 (i + int n)) else min (nat i) n)"

definition py_slice :: "string \<Rightarrow> int \<Rightarrow> int \<Rightarrow> string" where
  "py_slice s a b =
     (let lo = slice_index (length s) a; hi = slice_index (length s) b
      in take (hi - lo) (drop lo s))"

text \<open>
  \<open>s.split(sep)\<close> for a separator of one character: the pieces between the
  occurrences of the separator, always at least one piece.
\<close>

fun str_split :: "string \<Rightarrow> char \<Rightarrow> string list" where
  "str_split [] sep = [[]]"
| "str_split (c # cs) sep =
     (if c = sep then [] # str_split cs sep
      else (let r = str_split cs sep in (c # hd r) # tl r))"

text \<open>\<open>xs[-1]\<close> raises \<open>IndexError\<close> on the empty list.\<close>

definition index_last :: "'a list \<Rightarrow> error + 'a" where
  "index_last xs = (if xs = [] then Inl IndexError else Inr (last xs))"

text \<open>\<open>d[k]\<close> raises \<open>KeyError\<close> when the key is missing.\<close>

definition subscript :: "(string \<rightharpoonup> 'v) \<Rightarrow> string \<Rightarrow> error + 'v" where
  "subscript d k = (case d k of None \<Rightarrow> Inl (KeyError k) | Some v \<Rightarrow> Inr v)"

text \<open>\<open>sep.join(xs)\<close>.\<close>

fun str_join :: "string \<Rightarrow> string list \<Rightarrow> string" where
  "str_join sep [] = []"
| "str_join sep [x] = x"
| "str_join sep (x # y # ys) = x @ sep @ str_join sep (y # ys)"

text \<open>\<open>str(n)\<close> for an integer: its decimal digits.\<close>

definition digit_char :: "nat \<Rightarrow> char" where
  "digit_char d = ''0123456789abcdef'' ! (d mod 16)"

fun str_nat :: "nat \<Rightarrow> string" where
  "str_nat n = (if n < 10 then [digit_char n] else str_nat (n div 10) @ [digit_char (n mod 10)])"

declare str_nat.simps [simp del]

definition str_int :: "int \<Rightarrow> string" where
  "str_int i = (if i < 0 then CHR ''-'' # str_nat (nat (- i)) else str_nat (nat i))"

text \<open>\<open>os.path.join(a, b)\<close> on a POSIX system.\<close>

definition path_join :: "string \<Rightarrow> string \<Rightarrow> string" where
  "path_join a b =
     (if startswith b ''/'' then b
      else if a = [] \<or> endswith a ''/'' then a @ b
      else a @ ''/'' @ b)"

section \<open>Files and standard output\<close>

text \<open>
  The part of the world the code acts on: the content of each file, whether a path can
  be opened for writing (its directory exists and permits it), and the lines printed so
  far. \<open>open(path, "w")\<close> truncates the file or raises; \<open>f.write(data)\<close> appends to
  what has been written since, and is taken to succeed once the file is open.
\<close>

record world =
  files :: "string \<rightharpoonup> string"
  can_write :: "string \<Rightarrow> bool"
  stdout :: "string list"

definition open_w :: "world \<Rightarrow> string \<Rightarrow> error + world" where
  "open_w w path =
     (if can_write w path then Inr (w\<lparr>files := (files w)(path \<mapsto> [])\<rparr>)
      else Inl (OSError path))"

definition file_write :: "world \<Rightarrow> string \<Rightarrow> string \<Rightarrow> world" where
  "file_write w path data =
     w\<lparr>files := (files w)(path \<mapsto> (case files w path of None \<Rightarrow> data | Some c \<Rightarrow> c @ data))\<rparr>"

definition print :: "world \<Rightarrow> string \<Rightarrow> world" where
  "print w line = w\<lparr>stdout := stdout w @ [line]\<rparr>"

section \<open>json.dumps on a dictionary of strings\<close>

text \<open>
  With the default \<open>ensure_ascii\<close>, a string is written between double quotes; a
  backslash, a double quote and every character outside the printable ASCII range
  \<open>' '\<close> to \<open>'~'\<close> is replaced by its escape: the short escape where \<open>ESCAPE_DCT\<close>
  names one, and \<open>\u\<close> followed by four hexadecimal digits otherwise. A dictionary is
  written as \<open>{"k": "v", ...}\<close> in insertion order, on one line.
\<close>

definition hex4 :: "nat \<Rightarrow> string" where
  "hex4 n = [digit_char (n div 4096), digit_char (n div 256), digit_char (n div 16), digit_char n]"

definition escape_ascii_match :: "char \<Rightarrow> bool" where
  "escape_ascii_match c =
     (c = backslash \<or> c = dquote \<or> \<not> (0x20 \<le> (of_char c :: nat) \<and> (of_char c :: nat) \<le> 0x7E))"

definition ESCAPE_DCT :: "char \<rightharpoonup> string" where
  "ESCAPE_DCT c =
     (if c = backslash then Some [backslash, backslash]
      else if c = dquote then Some [backslash, dquote]
      else if c = CHR 0x08 then Some [backslash, CHR ''b'']
      else if c = CHR 0x0C then Some [backslash, CHR ''f'']
      else if c = newline then Some [backslash, CHR ''n'']
      else if c = CHR 0x0D then Some [backslash, CHR ''r'']
      else if c = CHR 0x09 then Some [backslash, CHR ''t'']
      else if (of_char c :: nat) < 0x20 then Some ([backslash, CHR ''u''] @ hex4 (of_char c))
      else None)"

definition replace :: "char \<Rightarrow> string" where
  "replace c = (case ESCAPE_DCT c of Some r \<Rightarrow> r
                | None \<Rightarrow> [backslash, CHR ''u''] @ hex4 (of_char c))"

definition encode_basestring_ascii :: "string \<Rightarrow> string" where
  "encode_basestring_ascii s =
     [dquote] @ concat (map (\<lambda>c. if escape_ascii_match c then replace c else [c]) s) @ [dquote]"

type_synonym prediction = "(string \<times> string) list"

definition json_dumps :: "prediction \<Rightarrow> string" where
  "json_dumps d =
     ''{'' @ str_join '', ''
              (map (\<lambda>(k, v). encode_basestring_ascii k @ '': '' @ encode_basestring_ascii v) d)
       @ ''}''"

section \<open>benchmarks/humaneval/inference.py\<close>

definition parse_result :: "string \<Rightarrow> string" where
  "parse_result result =
     (let start_idx = str_find result ''<FINAL_ANSWER>'';
          end_idx = str_find result ''</FINAL_ANSWER>''
      in if start_idx \<noteq> - 1 \<and> end_idx \<noteq> - 1
         then py_slice result (start_idx + int (length ''<FINAL_ANSWER>'')) end_idx
         else '''')"

text \<open>The \<open>for\<close> loop of \<open>write_output_func\<close>, on the open output file.\<close>

fun write_lines :: "world \<Rightarrow> string \<Rightarrow> prediction list \<Rightarrow> world" where
  "write_lines w output_file [] = w"
| "write_lines w output_file (result # result_list) =
     write_lines (file_write w output_file (json_dumps result @ [newline])) output_file result_list"

definition write_output_func :: "prediction list \<Rightarrow> string \<Rightarrow> world \<Rightarrow> error + world" where
  "write_output_func result_list output_file w =
     bind_err (open_w w output_file) (\<lambda>w1.
       Inr (print (write_lines w1 output_file result_list)
              (''Write results num: '' @ str_nat (length result_list))))"

text \<open>
  \<open>process_one_func\<close> reads two fields of \<open>meta_data\<close>. The table
  \<open>AGENT_TYPE_MAPPING_AIOS\<close> (from \<open>experiment_core\<close>) and the directory of the module
  (\<open>os.path.dirname(__file__)\<close>) are parameters: the table maps an agent type to a
  constructor, and the constructed agent is represented by its \<open>run_humaneval\<close> method,
  which returns the model's text or raises.
\<close>

record MetaData =
  agent_type :: string
  on_aios :: bool

type_synonym agent = "string \<Rightarrow> error + string"

definition process_one_func ::
  "(string \<rightharpoonup> (bool \<Rightarrow> agent)) \<Rightarrow> string \<Rightarrow> (string \<rightharpoonup> string) \<Rightarrow> MetaData \<Rightarrow> world
     \<Rightarrow> error + (prediction \<times> world)" where
  "process_one_func AGENT_TYPE_MAPPING_AIOS module_dir data meta_data w =
     bind_err (subscript AGENT_TYPE_MAPPING_AIOS (agent_type meta_data)) (\<lambda>make_agent.
     let agent = make_agent (on_aios meta_data) in
     bind_err (subscript data ''prompt'') (\<lambda>prompt.
     bind_err (agent prompt) (\<lambda>result.
     let result = parse_result result in
     bind_err (subscript data ''prompt'') (\<lambda>prompt.
     bind_err (subscript data ''test'') (\<lambda>test.
     bind_err (subscript data ''entry_point'') (\<lambda>entry_point.
     let check_program =
           prompt @ result @ [newline] @ test @ [newline] @ (''check('' @ entry_point @ '')'') in
     bind_err (subscript data ''task_id'') (\<lambda>full_task_id.
     bind_err (index_last (str_split full_task_id CHR ''/'')) (\<lambda>task_id.
     let path = path_join module_dir ''programs'';
         file = path_join path (''program'' @ task_id @ ''.py'') in
     bind_err (open_w w file) (\<lambda>w1.
     let w2 = file_write w1 file check_program in
     bind_err (subscript data ''task_id'') (\<lambda>full_task_id.
     let prediction = [(''task_id'', full_task_id), (''completion'', result)] in
     Inr (prediction, w2)))))))))))"

section \<open>cerebrum/llm/apis.py\<close>

text \<open>
  \<open>LLMQuery\<close> and \<open>LLMResponse\<close> are pydantic models: the constructor takes keyword
  arguments, fills in the default of every field that is not given, validates each
  field against its annotation and raises one \<open>ValidationError\<close> naming the fields that
  failed. An argument that is not given is \<open>None\<close> here; a field annotated \<open>Optional\<close>
  may also be given as Python's \<open>None\<close>, hence the second \<open>option\<close>. A value of type
  \<open>Dict[str, Any]\<close> is an association list over any type \<open>'v\<close> of values. Inputs of
  a wrong Python type have no counterpart in the model.

  Modelled from the spec: the base classes \<open>Query\<close> and \<open>Response\<close> of
  \<open>cerebrum.utils.communication\<close>. The data model of the specification lists for both
  envelopes exactly the fields declared below, so the base classes are taken to add
  neither a field nor a validator.
\<close>

record 'v LLMQuery_args =
  arg_query_class :: "string option"
  arg_llms :: "(string \<times> 'v) list list option option"
  arg_messages :: "(string \<times> 'v) list list option"
  arg_tools :: "(string \<times> 'v) list list option option"
  arg_action_type :: "string option"
  arg_message_return_type :: "string option"

record 'v LLMQuery =
  query_class :: string
  llms :: "(string \<times> 'v) list list option"
  messages :: "(string \<times> 'v) list list"
  tools :: "(string \<times> 'v) list list option"
  action_type :: string
  message_return_type :: string

definition action_type_literal :: "string list" where
  "action_type_literal = [''chat'', ''tool_use'', ''operate_file'']"

definition LLMQuery_errors :: "'v LLMQuery_args \<Rightarrow> string list" where
  "LLMQuery_errors args =
     (case arg_messages args of None \<Rightarrow> [''messages''] | Some _ \<Rightarrow> [])
     @ (case arg_action_type args of
          None \<Rightarrow> []
        | Some a \<Rightarrow> if a \<in> set action_type_literal then [] else [''action_type''])"

definition LLMQuery_init :: "'v LLMQuery_args \<Rightarrow> error + 'v LLMQuery" where
  "LLMQuery_init args =
     (if LLMQuery_errors args \<noteq> [] then Inl (ValidationError (LLMQuery_errors args))
      else Inr
        \<lparr>query_class = (case arg_query_class args of None \<Rightarrow> ''llm'' | Some c \<Rightarrow> c),
         llms = (case arg_llms args of None \<Rightarrow> None | Some l \<Rightarrow> l),
         messages = (case arg_messages args of None \<Rightarrow> [] | Some m \<Rightarrow> m),
         tools = (case arg_tools args of None \<Rightarrow> Some [] | Some t \<Rightarrow> t),
         action_type = (case arg_action_type args of None \<Rightarrow> ''chat'' | Some a \<Rightarrow> a),
         message_return_type =
           (case arg_message_return_type args of None \<Rightarrow> ''text'' | Some t \<Rightarrow> t)\<rparr>)"

record 'v LLMResponse_args =
  arg_response_class :: "string option"
  arg_response_message :: "string option option"
  arg_tool_calls :: "(string \<times> 'v) list list option option"
  arg_finished :: "bool option"
  arg_error :: "string option option"
  arg_status_code :: "int option"

record 'v LLMResponse =
  response_class :: string
  response_message :: "string option"
  tool_calls :: "(string \<times> 'v) list list option"
  finished :: bool
  error :: "string option"
  status_code :: int

definition LLMResponse_init :: "'v LLMResponse_args \<Rightarrow> error + 'v LLMResponse" where
  "LLMResponse_init args =
     Inr \<lparr>response_class = (case arg_response_class args of None \<Rightarrow> ''llm'' | Some c \<Rightarrow> c),
          response_message = (case arg_response_message args of None \<Rightarrow> None | Some m \<Rightarrow> m),
          tool_calls = (case arg_tool_calls args of None \<Rightarrow> None | Some t \<Rightarrow> t),
          finished = (case arg_finished args of None \<Rightarrow> False | Some f \<Rightarrow> f),
          error = (case arg_error args of None \<Rightarrow> None | Some e \<Rightarrow> e),
          status_code = (case arg_status_code args of None \<Rightarrow> 200 | Some c \<Rightarrow> c)\<rparr>"

text \<open>The call with no argument at all.\<close>

definition no_args :: "'v LLMResponse_args" where
  "no_args =
     \<lparr>arg_response_class = None, arg_response_message = None, arg_tool_calls = None,
      arg_finished = None, arg_error = None, arg_status_code = None\<rparr>"

text \<open>The queries that \<open>llm_chat\<close>, \<open>llm_call_tool\<close> and \<open>llm_operate_file\<close> build.\<close>

definition llm_chat_query ::
  "(string \<times> 'v) list list \<Rightarrow> (string \<times> 'v) list list option \<Rightarrow> error + 'v LLMQuery" where
  "llm_chat_query msgs ls =
     LLMQuery_init
       \<lparr>arg_query_class = None, arg_llms = Some ls, arg_messages = Some msgs,
        arg_tools = Some None, arg_action_type = Some ''chat'',
        arg_message_return_type = None\<rparr>"

definition llm_call_tool_query ::
  "(string \<times> 'v) list list \<Rightarrow> (string \<times> 'v) list list \<Rightarrow> (string \<times> 'v) list list option
     \<Rightarrow> error + 'v LLMQuery" where
  "llm_call_tool_query msgs ts ls =
     LLMQuery_init
       \<lparr>arg_query_class = None, arg_llms = Some ls, arg_messages = Some msgs,
        arg_tools = Some (Some ts), arg_action_type = Some ''tool_use'',
        arg_message_return_type = None\<rparr>"

definition llm_operate_file_query ::
  "(string \<times> 'v) list list \<Rightarrow> (string \<times> 'v) list list \<Rightarrow> (string \<times> 'v) list list option
     \<Rightarrow> error + 'v LLMQuery" where
  "llm_operate_file_query msgs ts ls =
     LLMQuery_init
       \<lparr>arg_query_class = None, arg_llms = Some ls, arg_messages = Some msgs,
        arg_tools = Some (Some ts), arg_action_type = Some ''operate_file'',
        arg_message_return_type = None\<rparr>"

section \<open>The transport adapter\<close>

text \<open>
  Modelled from the spec: \<open>send_request\<close> of \<open>cerebrum.utils.communication\<close>, which
  is not among the sources. It makes one outbound call for the agent, the query and the
  base URL, and the call ends in one of four ways: no connection, a timeout, a reply
  that cannot be decoded, or a reply with its HTTP status and decoded \<open>Response\<close>. A
  reply with a 2xx status is returned as decoded; every other outcome is mapped to a
  \<open>Response\<close> with \<open>finished = false\<close>, a cause in \<open>error\<close>, and as \<open>status_code\<close>
  the observed status or, where none was observed, the sentinel, which the
  specification leaves open and which is a parameter here.
\<close>

datatype 'v outcome =
    ConnectionFailure
  | Timeout
  | MalformedReply
  | HttpReply int "'v LLMResponse"

definition error_response :: "string \<Rightarrow> int \<Rightarrow> 'v LLMResponse" where
  "error_response cause code =
     \<lparr>response_class = ''llm'', response_message = None, tool_calls = None,
      finished = False, error = Some cause, status_code = code\<rparr>"

definition send_request ::
  "(string \<Rightarrow> string \<Rightarrow> 'v LLMQuery \<Rightarrow> 'v outcome) \<Rightarrow> int \<Rightarrow> string \<Rightarrow> 'v LLMQuery \<Rightarrow> string
     \<Rightarrow> 'v LLMResponse" where
  "send_request post sentinel agent_name query base_url =
     (case post base_url agent_name query of
        ConnectionFailure \<Rightarrow> error_response ''connection failed'' sentinel
      | Timeout \<Rightarrow> error_response ''request timed out'' sentinel
      | MalformedReply \<Rightarrow> error_response ''malformed reply'' sentinel
      | HttpReply code response \<Rightarrow>
          if 200 \<le> code \<and> code < 300 then response
          else error_response (''HTTP status '' @ str_int code) code)"

section \<open>cerebrum/llm/layer.py\<close>

text \<open>
  \<open>LLMItem\<close> and \<open>LLMLayer\<close> are dataclasses: the generated constructor stores its
  arguments and then runs \<open>__post_init__\<close>. The field \<open>llms\<close> of \<open>LLMLayer\<close> is
  written \<open>layer_llms\<close>, the name \<open>llms\<close> being the field of \<open>LLMQuery\<close>.
\<close>

record LLMItem =
  llm_name :: string
  max_gpu_memory :: "(string \<times> string) list option"
  eval_device :: string
  max_new_tokens :: int
  log_mode :: string
  llm_backend :: string

definition LLMItem_init ::
  "string \<Rightarrow> (string \<times> string) list option option \<Rightarrow> string option \<Rightarrow> int option
     \<Rightarrow> string option \<Rightarrow> string option \<Rightarrow> LLMItem" where
  "LLMItem_init name mem dev tok log backend =
     \<lparr>llm_name = name,
      max_gpu_memory = (case mem of None \<Rightarrow> None | Some m \<Rightarrow> m),
      eval_device = (case dev of None \<Rightarrow> ''cuda:0'' | Some d \<Rightarrow> d),
      max_new_tokens = (case tok of None \<Rightarrow> 2048 | Some t \<Rightarrow> t),
      log_mode = (case log of None \<Rightarrow> ''console'' | Some l \<Rightarrow> l),
      llm_backend = (case backend of None \<Rightarrow> ''default'' | Some b \<Rightarrow> b)\<rparr>"

record LLMLayer =
  layer_llms :: "LLMItem list"

definition LLMLayer_post_init :: "LLMLayer \<Rightarrow> error + unit" where
  "LLMLayer_post_init self =
     (if layer_llms self = [] then Inl (ValueError ''LLMLayer must contain at least one LLM'')
      else Inr ())"

definition LLMLayer_init :: "LLMItem list \<Rightarrow> error + LLMLayer" where
  "LLMLayer_init xs =
     (let self = \<lparr>layer_llms = xs\<rparr>
      in bind_err (LLMLayer_post_init self) (\<lambda>_. Inr self))"

section \<open>Vocabulary of the properties\<close>

text \<open>
  \<open>sub\<close> occurs in \<open>s\<close> at index \<open>i\<close>, and \<open>i\<close> is the index of its first occurrence.
\<close>

definition occurs_at :: "string \<Rightarrow> string \<Rightarrow> nat \<Rightarrow> bool" where
  "occurs_at sub s i = (i + length sub \<le> length s \<and> take (length sub) (drop i s) = sub)"

definition first_occurrence :: "string \<Rightarrow> string \<Rightarrow> nat \<Rightarrow> bool" where
  "first_occurrence sub s i = (occurs_at sub s i \<and> list_all (\<lambda>j. \<not> occurs_at sub s j) [0..<i])"

text \<open>
  The path of the side file for a task whose identifier ends, after its last \<open>/\<close>,
  in \<open>stem\<close>: \<open><module_dir>/programs/program<stem>.py\<close>.
\<close>

definition program_path :: "string \<Rightarrow> string \<Rightarrow> string" where
  "program_path module_dir stem =
     (if module_dir = [] \<or> endswith module_dir ''/'' then module_dir else module_dir @ ''/'')
       @ ''programs/program'' @ stem @ ''.py''"

text \<open>
  The expected content of the output file, one encoded record and a newline for each
  result, and the lines of a text that ends in a newline.
\<close>

definition file_body :: "prediction list \<Rightarrow> string" where
  "file_body result_list = concat (map (\<lambda>result. json_dumps result @ [newline]) result_list)"

definition file_lines :: "string \<Rightarrow> string list" where
  "file_lines content = butlast (str_split content newline)"

section \<open>A reference decoder for the output lines\<close>

text \<open>
  What a reader of the output file does with one line: a JSON decoder for an object
  whose values are strings. It follows the JSON grammar, so it allows white space
  between the tokens, all the short escapes and \<open>\u\<close> escapes in either case, and it
  rejects a raw control character inside a string. A \<open>\u\<close> escape above 255 has no
  character in the model and is rejected.
\<close>

definition is_ws :: "char \<Rightarrow> bool" where
  "is_ws c = (c = CHR '' '' \<or> c = CHR 0x09 \<or> c = newline \<or> c = CHR 0x0D)"

definition skip_ws :: "string \<Rightarrow> string" where
  "skip_ws s = dropWhile is_ws s"

definition hex_val :: "char \<Rightarrow> nat option" where
  "hex_val c =
     (let n = (of_char c :: nat)
      in if 48 \<le> n \<and> n \<le> 57 then Some (n - 48)
         else if 97 \<le> n \<and> n \<le> 102 then Some (n - 87)
         else if 65 \<le> n \<and> n \<le> 70 then Some (n - 55)
         else None)"

definition unescape :: "char \<Rightarrow> char option" where
  "unescape e =
     (if e = dquote \<or> e = backslash \<or> e = CHR ''/'' then Some e
      else if e = CHR ''b'' then Some (CHR 0x08)
      else if e = CHR ''f'' then Some (CHR 0x0C)
      else if e = CHR ''n'' then Some newline
      else if e = CHR ''r'' then Some (CHR 0x0D)
      else if e = CHR ''t'' then Some (CHR 0x09)
      else None)"

definition cons_char :: "char \<Rightarrow> (string \<times> string) option \<Rightarrow> (string \<times> string) option" where
  "cons_char c r = (case r of None \<Rightarrow> None | Some (s, rest) \<Rightarrow> Some (c # s, rest))"

text \<open>
  \<open>decode_chars\<close> reads the inside of a string up to its closing quote and returns the
  decoded characters with the rest of the input.
\<close>

fun decode_chars :: "string \<Rightarrow> (string \<times> string) option" where
  "decode_chars [] = None"
| "decode_chars (c # cs) =
     (if c = dquote then Some ([], cs)
      else if c = backslash then
        (case cs of
           [] \<Rightarrow> None
         | e # r \<Rightarrow>
             if e = CHR ''u'' then
               (case r of
                  h1 # h2 # h3 # h4 # r' \<Rightarrow>
                    (case (hex_val h1, hex_val h2, hex_val h3, hex_val h4) of
                       (Some a, Some b, Some c', Some d) \<Rightarrow>
                         if ((a * 16 + b) * 16 + c') * 16 + d < 256
                         then cons_char (char_of (((a * 16 + b) * 16 + c') * 16 + d))
                                (decode_chars r')
                         else None
                     | _ \<Rightarrow> None)
                | _ \<Rightarrow> None)
             else (case unescape e of
                     None \<Rightarrow> None
                   | Some c' \<Rightarrow> cons_char c' (decode_chars r)))
      else if (of_char c :: nat) < 0x20 then None
      else cons_char c (decode_chars cs))"

definition expect :: "char \<Rightarrow> string \<Rightarrow> string option" where
  "expect c s = (case skip_ws s of [] \<Rightarrow> None | x # r \<Rightarrow> if x = c then Some r else None)"

definition read_string :: "string \<Rightarrow> (string \<times> string) option" where
  "read_string s = (case expect dquote s of None \<Rightarrow> None | Some r \<Rightarrow> decode_chars r)"

text \<open>Each step of the decoder consumes input; this is what makes \<open>parse_pairs\<close> total.\<close>

lemma length_skip_ws: "length (skip_ws s) \<le> length s"
  by (simp add: skip_ws_def length_dropWhile_le)

lemma skip_ws_Cons_shorter: "skip_ws s = c # r \<Longrightarrow> length r < length s"
  using length_skip_ws [of s] by simp

lemma expect_shorter: "expect c s = Some r \<Longrightarrow> length r < length s"
  using length_skip_ws [of s]
  by (auto simp: expect_def split: list.splits if_splits)

lemma cons_char_Some:
  "cons_char c r = Some (s, rest) \<longleftrightarrow> (\<exists>s'. r = Some (s', rest) \<and> s = c # s')"
  by (auto simp: cons_char_def split: option.splits)

lemma decode_chars_shorter: "decode_chars s = Some (x, r) \<Longrightarrow> length r < length s"
proof (induction "length s" arbitrary: s x r rule: less_induct)
  case less
  have IH: "length q < length t" if "decode_chars t = Some (y, q)" "length t < length s" for t y q
    using less.hyps [of t y q] that by simp
  from less.prems show ?case
    by (cases s) (auto simp: cons_char_Some split: if_splits list.splits option.splits
        dest!: IH)
qed

lemma read_string_shorter: "read_string s = Some (x, r) \<Longrightarrow> length r < length s"
  by (auto simp: read_string_def split: option.splits
      dest!: expect_shorter decode_chars_shorter)

text \<open>The members of an object, after its opening brace, up to the end of the input.\<close>

function parse_pairs :: "string \<Rightarrow> prediction option" where
  "parse_pairs s =
     (case read_string s of
        None \<Rightarrow> None
      | Some (k, r1) \<Rightarrow>
          (case expect CHR '':'' r1 of
             None \<Rightarrow> None
           | Some r2 \<Rightarrow>
               (case read_string r2 of
                  None \<Rightarrow> None
                | Some (v, r3) \<Rightarrow>
                    (case skip_ws r3 of
                       [] \<Rightarrow> None
                     | c # r4 \<Rightarrow>
                         if c = CHR ''}'' then (if skip_ws r4 = [] then Some [(k, v)] else None)
                         else if c = CHR '','' then
                           (case parse_pairs r4 of
                              None \<Rightarrow> None
                            | Some d \<Rightarrow> Some ((k, v) # d))
                         else None))))"
  by pat_completeness auto

termination parse_pairs
proof (relation "measure length")
  show "wf (measure length)" by simp
next
  fix s :: string and k r1 r2 v r3 c r4 and x1 x2 :: "string \<times> string"
  assume "read_string s = Some x1" "(k, r1) = x1" "expect CHR '':'' r1 = Some r2"
    "read_string r2 = Some x2" "(v, r3) = x2" "skip_ws r3 = c # r4"
  then have "length r1 < length s" "length r2 < length r1" "length r3 < length r2"
    "length r4 < length r3"
    by (auto dest: read_string_shorter expect_shorter skip_ws_Cons_shorter)
  then show "(r4, s) \<in> measure length" by simp
qed

declare parse_pairs.simps [simp del]

definition json_loads :: "string \<Rightarrow> prediction option" where
  "json_loads s =
     (case expect CHR ''{'' s of
        None \<Rightarrow> None
      | Some r \<Rightarrow>
          (case skip_ws r of
             [] \<Rightarrow> None
           | c # r' \<Rightarrow>
               if c = CHR ''}'' then (if skip_ws r' = [] then Some [] else None)
               else parse_pairs r))"

section \<open>The end-to-end scenario of the specification\<close>

text \<open>
  The record \<open>A/1\<close> and the stub agent of the scenario, in a world with no files where
  every path can be written; the module is taken to lie in \<open>/bench\<close>.
\<close>

definition scenario_table :: "string \<rightharpoonup> (bool \<Rightarrow> agent)" where
  "scenario_table = [''humaneval:stub'' \<mapsto> (\<lambda>_ _. Inr ''<FINAL_ANSWER>    return x</FINAL_ANSWER>'')]"

definition scenario_meta :: MetaData where
  "scenario_meta = \<lparr>agent_type = ''humaneval:stub'', on_aios = True\<rparr>"

definition scenario_data :: "string \<rightharpoonup> string" where
  "scenario_data =
     [''task_id'' \<mapsto> ''A/1'', ''prompt'' \<mapsto> ''def f(x):'' @ [newline],
      ''test'' \<mapsto> ''assert f(1)==1'', ''entry_point'' \<mapsto> ''f'']"

definition scenario_world :: world where
  "scenario_world = \<lparr>files = Map.empty, can_write = (\<lambda>_. True), stdout = []\<rparr>"

definition scenario_program :: string where
  "scenario_program =
     ''def f(x):'' @ [newline] @ ''    return x'' @ [newline] @ ''assert f(1)==1'' @ [newline]
       @ ''check(f)''"

section \<open>Properties of the string operations\<close>

lemma str_find_ge: "- 1 \<le> str_find s sub"
  by (induction s) (auto simp: Let_def)

lemma occurs_at_Nil [simp]: "occurs_at sub [] i \<longleftrightarrow> sub = [] \<and> i = 0"
  by (auto simp: occurs_at_def)

lemma occurs_at_0: "occurs_at sub s 0 \<longleftrightarrow> startswith s sub"
proof -
  have "length sub \<le> length s" if "take (length sub) s = sub"
  proof -
    from that have "length (take (length sub) s) = length sub" by simp
    then show ?thesis by simp
  qed
  then show ?thesis by (auto simp: occurs_at_def startswith_def)
qed

lemma occurs_at_Suc [simp]: "occurs_at sub (c # cs) (Suc i) \<longleftrightarrow> occurs_at sub cs i"
  by (auto simp: occurs_at_def)

lemma str_find_absent: "str_find s sub = - 1 \<longleftrightarrow> (\<forall>i. \<not> occurs_at sub s i)"
proof (induction s)
  case Nil
  then show ?case by auto
next
  case (Cons c cs)
  have "(\<forall>i. \<not> occurs_at sub (c # cs) i)
        \<longleftrightarrow> \<not> occurs_at sub (c # cs) 0 \<and> (\<forall>i. \<not> occurs_at sub cs i)"
    by (metis occurs_at_Suc not0_implies_Suc)
  with Cons str_find_ge [of cs sub] show ?case
    by (auto simp: Let_def occurs_at_0)
qed

lemma first_occurrence_alt:
  "first_occurrence sub s i \<longleftrightarrow> occurs_at sub s i \<and> (\<forall>j<i. \<not> occurs_at sub s j)"
  by (auto simp: first_occurrence_def list_all_iff)

lemma first_occurrence_0: "first_occurrence sub s 0 \<longleftrightarrow> startswith s sub"
  by (simp add: first_occurrence_alt occurs_at_0)

lemma first_occurrence_Suc:
  "first_occurrence sub (c # cs) (Suc i)
     \<longleftrightarrow> \<not> startswith (c # cs) sub \<and> first_occurrence sub cs i"
  unfolding first_occurrence_alt
  by (auto simp: occurs_at_0 [symmetric] less_Suc_eq_0_disj)

lemma str_find_present: "str_find s sub = int i \<longleftrightarrow> first_occurrence sub s i"
proof (induction s arbitrary: i)
  case Nil
  then show ?case by (auto simp: first_occurrence_alt)
next
  case (Cons c cs)
  show ?case
  proof (cases i)
    case 0
    with str_find_ge [of cs sub] show ?thesis
      by (auto simp: first_occurrence_0 Let_def)
  next
    case (Suc k)
    with Cons [of k] str_find_ge [of cs sub] show ?thesis
      by (auto simp: first_occurrence_Suc Let_def)
  qed
qed

lemma sublist_occurs: "sublist sub s \<longleftrightarrow> (\<exists>i. occurs_at sub s i)"
proof
  assume "sublist sub s"
  then obtain ps ss where "s = ps @ sub @ ss" by (auto simp: sublist_def)
  then have "occurs_at sub s (length ps)" by (simp add: occurs_at_def)
  then show "\<exists>i. occurs_at sub s i" ..
next
  assume "\<exists>i. occurs_at sub s i"
  then obtain i where i: "occurs_at sub s i" ..
  then have "s = take i s @ sub @ drop (length sub) (drop i s)"
    by (metis append_take_drop_id occurs_at_def)
  then show "sublist sub s" unfolding sublist_def by blast
qed

lemma sublist_first_occurrence:
  assumes "sublist sub s"
  shows "\<exists>i. first_occurrence sub s i"
proof -
  from assms have "str_find s sub \<noteq> - 1" by (simp add: str_find_absent sublist_occurs)
  with str_find_ge [of s sub] have "0 \<le> str_find s sub" by arith
  then obtain i where "str_find s sub = int i" using nonneg_int_cases by blast
  then have "first_occurrence sub s i" by (simp add: str_find_present)
  then show ?thesis ..
qed

lemma slice_index_nat [simp]: "slice_index n (int k) = min k n"
  by (simp add: slice_index_def)

lemma py_slice_nat:
  "py_slice s (int a) (int b)
     = take (min b (length s) - min a (length s)) (drop (min a (length s)) s)"
  by (simp add: py_slice_def Let_def)

section \<open>Answer extraction\<close>

lemma parse_result_absent:
  "\<not> sublist ''<FINAL_ANSWER>'' s \<or> \<not> sublist ''</FINAL_ANSWER>'' s \<Longrightarrow> parse_result s = ''''"
  by (auto simp: parse_result_def Let_def str_find_absent sublist_occurs)

lemma parse_result_present:
  assumes "first_occurrence ''<FINAL_ANSWER>'' s i" and "first_occurrence ''</FINAL_ANSWER>'' s j"
  shows "parse_result s = take (j - (i + 14)) (drop (i + 14) s)"
proof -
  from assms have si: "str_find s ''<FINAL_ANSWER>'' = int i"
    and sj: "str_find s ''</FINAL_ANSWER>'' = int j"
    by (simp_all only: str_find_present)
  from assms have "i + 14 \<le> length s" "j + 15 \<le> length s"
    by (simp_all add: first_occurrence_alt occurs_at_def)
  then have m: "min (i + 14) (length s) = i + 14" "min j (length s) = j" by simp_all
  have "parse_result s = py_slice s (int (i + 14)) (int j)"
    unfolding parse_result_def si sj by (simp add: Let_def)
  then show ?thesis by (simp only: py_slice_nat m)
qed

text \<open>
  C1. When either marker is absent, \<open>parse_result\<close> returns the empty string. When both
  are present, it returns the characters from the end of the first begin marker up to
  the start of the first end marker (none when that end marker comes first). For a text
  \<open>pre + "<FINAL_ANSWER>" + x + "</FINAL_ANSWER>" + post\<close> in which these two are the
  first occurrences of the markers, it returns exactly \<open>x\<close>.
\<close>

theorem parse_result_between:
  "(\<not> sublist ''<FINAL_ANSWER>'' s \<or> \<not> sublist ''</FINAL_ANSWER>'' s \<longrightarrow> parse_result s = '''')
   \<and> (sublist ''<FINAL_ANSWER>'' s \<and> sublist ''</FINAL_ANSWER>'' s \<longrightarrow>
        (\<exists>i j. first_occurrence ''<FINAL_ANSWER>'' s i \<and> first_occurrence ''</FINAL_ANSWER>'' s j
           \<and> parse_result s = take (j - (i + 14)) (drop (i + 14) s)))
   \<and> (s = pre @ ''<FINAL_ANSWER>'' @ x @ ''</FINAL_ANSWER>'' @ post
        \<and> first_occurrence ''<FINAL_ANSWER>'' s (length pre)
        \<and> first_occurrence ''</FINAL_ANSWER>'' s (length pre + 14 + length x)
      \<longrightarrow> parse_result s = x)"
proof (intro conjI impI)
  assume "\<not> sublist ''<FINAL_ANSWER>'' s \<or> \<not> sublist ''</FINAL_ANSWER>'' s"
  then show "parse_result s = ''''" by (rule parse_result_absent)
next
  assume a: "sublist ''<FINAL_ANSWER>'' s \<and> sublist ''</FINAL_ANSWER>'' s"
  obtain i where i: "first_occurrence ''<FINAL_ANSWER>'' s i"
    using a sublist_first_occurrence by blast
  obtain j where j: "first_occurrence ''</FINAL_ANSWER>'' s j"
    using a sublist_first_occurrence by blast
  from i j parse_result_present [OF i j]
  show "\<exists>i j. first_occurrence ''<FINAL_ANSWER>'' s i \<and> first_occurrence ''</FINAL_ANSWER>'' s j
           \<and> parse_result s = take (j - (i + 14)) (drop (i + 14) s)" by blast
next
  assume a: "s = pre @ ''<FINAL_ANSWER>'' @ x @ ''</FINAL_ANSWER>'' @ post
        \<and> first_occurrence ''<FINAL_ANSWER>'' s (length pre)
        \<and> first_occurrence ''</FINAL_ANSWER>'' s (length pre + 14 + length x)"
  then have "parse_result s
      = take (length pre + 14 + length x - (length pre + 14)) (drop (length pre + 14) s)"
    using parse_result_present by blast
  also have "drop (length pre + 14) s = x @ ''</FINAL_ANSWER>'' @ post"
  proof -
    have "s = (pre @ ''<FINAL_ANSWER>'') @ x @ ''</FINAL_ANSWER>'' @ post" using a by simp
    moreover have "length (pre @ ''<FINAL_ANSWER>'') = length pre + 14" by simp
    ultimately show ?thesis by (metis append_eq_conv_conj)
  qed
  finally show "parse_result s = x" by simp
qed

theorem parse_result_between_witness:
  "\<not> sublist ''<FINAL_ANSWER>'' ''    return x''
   \<and> parse_result ''    return x'' = ''''
   \<and> sublist ''<FINAL_ANSWER>'' ''So<FINAL_ANSWER>    return x</FINAL_ANSWER>.''
   \<and> sublist ''</FINAL_ANSWER>'' ''So<FINAL_ANSWER>    return x</FINAL_ANSWER>.''
   \<and> (\<exists>i j. first_occurrence ''<FINAL_ANSWER>'' ''So<FINAL_ANSWER>    return x</FINAL_ANSWER>.'' i
          \<and> first_occurrence ''</FINAL_ANSWER>'' ''So<FINAL_ANSWER>    return x</FINAL_ANSWER>.'' j
          \<and> parse_result ''So<FINAL_ANSWER>    return x</FINAL_ANSWER>.''
              = take (j - (i + 14)) (drop (i + 14) ''So<FINAL_ANSWER>    return x</FINAL_ANSWER>.''))
   \<and> ''So<FINAL_ANSWER>    return x</FINAL_ANSWER>.''
        = ''So'' @ ''<FINAL_ANSWER>'' @ ''    return x'' @ ''</FINAL_ANSWER>'' @ ''.''
   \<and> first_occurrence ''<FINAL_ANSWER>'' ''So<FINAL_ANSWER>    return x</FINAL_ANSWER>.''
        (length ''So'')
   \<and> first_occurrence ''</FINAL_ANSWER>'' ''So<FINAL_ANSWER>    return x</FINAL_ANSWER>.''
        (length ''So'' + 14 + length ''    return x'')
   \<and> parse_result ''So<FINAL_ANSWER>    return x</FINAL_ANSWER>.'' = ''    return x''"
proof -
  let ?t = "''So<FINAL_ANSWER>    return x</FINAL_ANSWER>.''"
  have h1: "\<not> sublist ''<FINAL_ANSWER>'' ''    return x''" by (simp add: sublist_code)
  have h2: "sublist ''<FINAL_ANSWER>'' ?t" by (simp add: sublist_code)
  have h3: "sublist ''</FINAL_ANSWER>'' ?t" by (simp add: sublist_code)
  have h4: "?t = ''So'' @ ''<FINAL_ANSWER>'' @ ''    return x'' @ ''</FINAL_ANSWER>'' @ ''.''"
    by simp
  have h5: "first_occurrence ''<FINAL_ANSWER>'' ?t (length ''So'')" by code_simp
  have h6: "first_occurrence ''</FINAL_ANSWER>'' ?t (length ''So'' + 14 + length ''    return x'')"
    by code_simp
  from h1 parse_result_between [of "''    return x''"]
  have c1: "parse_result ''    return x'' = ''''" by blast
  from h2 h3 parse_result_between [of ?t]
  have c2: "\<exists>i j. first_occurrence ''<FINAL_ANSWER>'' ?t i \<and> first_occurrence ''</FINAL_ANSWER>'' ?t j
      \<and> parse_result ?t = take (j - (i + 14)) (drop (i + 14) ?t)" by blast
  from h4 h5 h6 parse_result_between [of ?t "''So''" "''    return x''" "''.''"]
  have c3: "parse_result ?t = ''    return x''" by blast
  from h1 h2 h3 h4 h5 h6 c1 c2 c3 show ?thesis by blast
qed

text \<open>
  The claim as written promises \<open>X\<close> for every text that contains
  \<open><FINAL_ANSWER>X</FINAL_ANSWER>\<close>. An end marker before the begin marker is found
  first, and the slice is empty.
\<close>

theorem parse_result_containing_counterexample:
  "sublist (''<FINAL_ANSWER>'' @ ''X'' @ ''</FINAL_ANSWER>'')
       ''</FINAL_ANSWER><FINAL_ANSWER>X</FINAL_ANSWER>''
   \<and> parse_result ''</FINAL_ANSWER><FINAL_ANSWER>X</FINAL_ANSWER>'' \<noteq> ''X''"
proof
  show "sublist (''<FINAL_ANSWER>'' @ ''X'' @ ''</FINAL_ANSWER>'')
       ''</FINAL_ANSWER><FINAL_ANSWER>X</FINAL_ANSWER>''"
    by (simp add: sublist_code)
  have "parse_result ''</FINAL_ANSWER><FINAL_ANSWER>X</FINAL_ANSWER>'' = ''''" by code_simp
  then show "parse_result ''</FINAL_ANSWER><FINAL_ANSWER>X</FINAL_ANSWER>'' \<noteq> ''X''" by simp
qed

section \<open>LLMLayer\<close>

text \<open>
  C10. Constructing an \<open>LLMLayer\<close> from the empty list raises \<open>ValueError\<close>; from every
  non-empty list of \<open>LLMItem\<close> the construction succeeds and stores the list unchanged;
  hence every \<open>LLMLayer\<close> that was constructed holds at least one LLM.
\<close>

theorem LLMLayer_init_nonempty:
  "LLMLayer_init [] = Inl (ValueError ''LLMLayer must contain at least one LLM'')
   \<and> (xs \<noteq> [] \<longrightarrow> LLMLayer_init xs = Inr \<lparr>layer_llms = xs\<rparr>)
   \<and> (LLMLayer_init xs = Inr layer \<longrightarrow> layer_llms layer = xs \<and> layer_llms layer \<noteq> [])"
  by (auto simp: LLMLayer_init_def LLMLayer_post_init_def bind_err_def split: if_splits)

theorem LLMLayer_init_nonempty_witness:
  "[LLMItem_init ''gpt-4'' None None None None None] \<noteq> []
   \<and> LLMLayer_init [LLMItem_init ''gpt-4'' None None None None None]
       = Inr \<lparr>layer_llms = [LLMItem_init ''gpt-4'' None None None None None]\<rparr>
   \<and> layer_llms \<lparr>layer_llms = [LLMItem_init ''gpt-4'' None None None None None]\<rparr> \<noteq> []"
  using LLMLayer_init_nonempty [of "[LLMItem_init ''gpt-4'' None None None None None]"
      "\<lparr>layer_llms = [LLMItem_init ''gpt-4'' None None None None None]\<rparr>"]
  by simp

section \<open>LLMQuery and LLMResponse\<close>

lemma LLMQuery_init_Inr:
  "LLMQuery_init args = Inr q \<Longrightarrow> LLMQuery_errors args = []"
  by (auto simp: LLMQuery_init_def split: if_splits)

lemma LLMQuery_errors_Nil:
  "LLMQuery_errors args = [] \<longleftrightarrow>
     arg_messages args \<noteq> None
     \<and> (\<forall>a. arg_action_type args = Some a \<longrightarrow> a \<in> set action_type_literal)"
  by (auto simp: LLMQuery_errors_def split: option.splits if_splits)

text \<open>
  C2, as the code has it. The field \<open>messages\<close> is required, so a construction that
  does not give it raises \<open>ValidationError\<close>; the annotation sets no minimum length, so
  every list that is given, the empty one included, is accepted and stored unchanged
  (when \<open>action_type\<close> is valid).
\<close>

theorem LLMQuery_init_messages:
  "(arg_messages args = None \<longrightarrow>
      (\<exists>fields. LLMQuery_init args = Inl (ValidationError fields) \<and> ''messages'' \<in> set fields))
   \<and> (arg_messages args = Some ms
        \<and> (arg_action_type args = None \<or> arg_action_type args = Some ''chat''
             \<or> arg_action_type args = Some ''tool_use''
             \<or> arg_action_type args = Some ''operate_file'') \<longrightarrow>
      (\<exists>q. LLMQuery_init args = Inr q \<and> messages q = ms))"
  by (auto simp: LLMQuery_init_def LLMQuery_errors_def action_type_literal_def
      split: option.splits)

theorem LLMQuery_init_messages_witness:
  "arg_messages \<lparr>arg_query_class = None, arg_llms = None,
       arg_messages = (None :: (string \<times> string) list list option), arg_tools = None,
       arg_action_type = None, arg_message_return_type = None\<rparr> = None
   \<and> (\<exists>fields. LLMQuery_init \<lparr>arg_query_class = None, arg_llms = None,
         arg_messages = (None :: (string \<times> string) list list option), arg_tools = None,
         arg_action_type = None, arg_message_return_type = None\<rparr>
           = Inl (ValidationError fields) \<and> ''messages'' \<in> set fields)
   \<and> arg_messages \<lparr>arg_query_class = None, arg_llms = None,
       arg_messages = Some [[(''role'', ''user''), (''content'', ''hello'')]], arg_tools = None,
       arg_action_type = Some ''chat'', arg_message_return_type = None\<rparr>
       = Some [[(''role'', ''user''), (''content'', ''hello'')]]
   \<and> arg_action_type \<lparr>arg_query_class = None, arg_llms = None,
       arg_messages = Some [[(''role'', ''user''), (''content'', ''hello'')]], arg_tools = None,
       arg_action_type = Some ''chat'', arg_message_return_type = None\<rparr> = Some ''chat''
   \<and> (\<exists>q. LLMQuery_init \<lparr>arg_query_class = None, arg_llms = None,
         arg_messages = Some [[(''role'', ''user''), (''content'', ''hello'')]], arg_tools = None,
         arg_action_type = Some ''chat'', arg_message_return_type = None\<rparr> = Inr q
        \<and> messages q = [[(''role'', ''user''), (''content'', ''hello'')]])"
proof -
  let ?a = "\<lparr>arg_query_class = None, arg_llms = None,
       arg_messages = (None :: (string \<times> string) list list option), arg_tools = None,
       arg_action_type = None, arg_message_return_type = None\<rparr>"
  let ?b = "\<lparr>arg_query_class = None, arg_llms = None,
       arg_messages = Some [[(''role'', ''user''), (''content'', ''hello'')]], arg_tools = None,
       arg_action_type = Some ''chat'', arg_message_return_type = None\<rparr>"
  have ha: "arg_messages ?a = None" by simp
  have hb: "arg_messages ?b = Some [[(''role'', ''user''), (''content'', ''hello'')]]"
    and hc: "arg_action_type ?b = Some ''chat''" by simp_all
  from ha LLMQuery_init_messages [of ?a]
  have ca: "\<exists>fields. LLMQuery_init ?a = Inl (ValidationError fields) \<and> ''messages'' \<in> set fields"
    by blast
  from hb hc LLMQuery_init_messages [of ?b "[[(''role'', ''user''), (''content'', ''hello'')]]"]
  have cb: "\<exists>q. LLMQuery_init ?b = Inr q
      \<and> messages q = [[(''role'', ''user''), (''content'', ''hello'')]]"
    by blast
  from ha hb hc ca cb show ?thesis by blast
qed

text \<open>
  The claim as written fails: \<open>llm_chat\<close> called with an empty list of messages builds
  its query without an error, and the query holds the empty list.
\<close>

theorem LLMQuery_empty_messages_counterexample:
  "llm_chat_query ([] :: (string \<times> string) list list) None
     = Inr \<lparr>query_class = ''llm'', llms = None, messages = [], tools = None,
            action_type = ''chat'', message_return_type = ''text''\<rparr>"
  by (simp add: llm_chat_query_def LLMQuery_init_def LLMQuery_errors_def action_type_literal_def)

text \<open>
  C4. The \<open>action_type\<close> of every \<open>LLMQuery\<close> that was constructed is one of \<open>chat\<close>,
  \<open>tool_use\<close> and \<open>operate_file\<close>, and a construction with any other string raises
  \<open>ValidationError\<close>.
\<close>

theorem LLMQuery_init_action_type:
  "(LLMQuery_init args = Inr q \<longrightarrow> action_type q \<in> {''chat'', ''tool_use'', ''operate_file''})
   \<and> (arg_action_type args = Some a \<and> a \<notin> {''chat'', ''tool_use'', ''operate_file''} \<longrightarrow>
        (\<exists>fields. LLMQuery_init args = Inl (ValidationError fields)
           \<and> ''action_type'' \<in> set fields))"
proof (intro conjI impI)
  assume ok: "LLMQuery_init args = Inr q"
  then have e: "LLMQuery_errors args = []" by (rule LLMQuery_init_Inr)
  from ok e have "action_type q = (case arg_action_type args of None \<Rightarrow> ''chat'' | Some a \<Rightarrow> a)"
    by (auto simp: LLMQuery_init_def)
  with e show "action_type q \<in> {''chat'', ''tool_use'', ''operate_file''}"
    by (cases "arg_action_type args") (auto simp: LLMQuery_errors_Nil action_type_literal_def)
next
  assume "arg_action_type args = Some a \<and> a \<notin> {''chat'', ''tool_use'', ''operate_file''}"
  then show "\<exists>fields. LLMQuery_init args = Inl (ValidationError fields)
      \<and> ''action_type'' \<in> set fields"
    by (auto simp: LLMQuery_init_def LLMQuery_errors_def action_type_literal_def)
qed

theorem LLMQuery_init_action_type_witness:
  "llm_call_tool_query [[(''role'', ''user'')]] [[(''name'', ''calculator'')]] None
     = Inr \<lparr>query_class = ''llm'', llms = None, messages = [[(''role'', ''user'')]],
            tools = Some [[(''name'', ''calculator'')]], action_type = ''tool_use'',
            message_return_type = ''text''\<rparr>
   \<and> action_type \<lparr>query_class = ''llm'', llms = None, messages = [[(''role'', ''user'')]],
            tools = Some [[(''name'', ''calculator'')]], action_type = ''tool_use'',
            message_return_type = ''text''\<rparr> \<in> {''chat'', ''tool_use'', ''operate_file''}
   \<and> arg_action_type \<lparr>arg_query_class = None, arg_llms = None,
         arg_messages = Some [[(''role'', ''user'')]], arg_tools = None,
         arg_action_type = Some ''search'', arg_message_return_type = None\<rparr> = Some ''search''
   \<and> ''search'' \<notin> {''chat'', ''tool_use'', ''operate_file''}
   \<and> (\<exists>fields. LLMQuery_init \<lparr>arg_query_class = None, arg_llms = None,
         arg_messages = Some [[(''role'', ''user'')]], arg_tools = None,
         arg_action_type = Some ''search'', arg_message_return_type = None\<rparr>
           = Inl (ValidationError fields) \<and> ''action_type'' \<in> set fields)"
proof -
  let ?q = "\<lparr>query_class = ''llm'', llms = None, messages = [[(''role'', ''user'')]],
            tools = Some [[(''name'', ''calculator'')]], action_type = ''tool_use'',
            message_return_type = ''text''\<rparr>"
  let ?good = "\<lparr>arg_query_class = None, arg_llms = Some None,
         arg_messages = Some [[(''role'', ''user'')]],
         arg_tools = Some (Some [[(''name'', ''calculator'')]]),
         arg_action_type = Some ''tool_use'', arg_message_return_type = None\<rparr>"
  let ?bad = "\<lparr>arg_query_class = None, arg_llms = None,
         arg_messages = Some [[(''role'', ''user'')]], arg_tools = None,
         arg_action_type = Some ''search'', arg_message_return_type = None\<rparr>"
  have h1: "llm_call_tool_query [[(''role'', ''user'')]] [[(''name'', ''calculator'')]] None = Inr ?q"
    by (simp add: llm_call_tool_query_def LLMQuery_init_def LLMQuery_errors_def
        action_type_literal_def)
  then have h1': "LLMQuery_init ?good = Inr ?q" by (simp add: llm_call_tool_query_def)
  have h2: "arg_action_type ?bad = Some ''search''"
    and h3: "''search'' \<notin> {''chat'', ''tool_use'', ''operate_file''}" by simp_all
  have c1: "action_type ?q \<in> {''chat'', ''tool_use'', ''operate_file''}"
    by (rule LLMQuery_init_action_type [of ?good ?q, THEN conjunct1, THEN mp, OF h1'])
  have c2: "\<exists>fields. LLMQuery_init ?bad = Inl (ValidationError fields)
      \<and> ''action_type'' \<in> set fields"
    by (rule LLMQuery_init_action_type [of ?bad ?q "''search''", THEN conjunct2, THEN mp,
          OF conjI [OF h2 h3]])
  from h1 c1 h2 h3 c2 show ?thesis by (intro conjI)
qed

text \<open>
  C3, as the code has it. The fields \<open>finished\<close> and \<open>error\<close> of \<open>LLMResponse\<close> are
  declared independently, with defaults \<open>False\<close> and \<open>None\<close>, and no validator relates
  them: every construction succeeds and stores both as they were given.
\<close>

theorem LLMResponse_init_finished_error:
  "\<exists>r. LLMResponse_init args = Inr r
     \<and> finished r = (case arg_finished args of None \<Rightarrow> False | Some f \<Rightarrow> f)
     \<and> error r = (case arg_error args of None \<Rightarrow> None | Some e \<Rightarrow> e)"
  by (simp add: LLMResponse_init_def)

text \<open>
  The claim as written fails at the response constructed with \<open>finished = False\<close> and
  nothing else: it is not finished and carries no error.
\<close>

theorem LLMResponse_unfinished_counterexample:
  "LLMResponse_init \<lparr>arg_response_class = None, arg_response_message = None,
       arg_tool_calls = (None :: (string \<times> string) list list option option),
       arg_finished = Some False, arg_error = None, arg_status_code = None\<rparr>
     = Inr \<lparr>response_class = ''llm'', response_message = None, tool_calls = None,
            finished = False, error = None, status_code = 200\<rparr>
   \<and> \<not> finished \<lparr>response_class = ''llm'', response_message = None,
            tool_calls = (None :: (string \<times> string) list list option),
            finished = False, error = None, status_code = 200\<rparr>
   \<and> error \<lparr>response_class = ''llm'', response_message = None,
            tool_calls = (None :: (string \<times> string) list list option),
            finished = False, error = None, status_code = 200\<rparr> = None"
  by (simp add: LLMResponse_init_def)

text \<open>
  C9. \<open>LLMResponse()\<close> with no argument succeeds, and the response has
  \<open>finished = False\<close> and \<open>status_code = 200\<close>, with \<open>response_message\<close>,
  \<open>tool_calls\<close> and \<open>error\<close> absent.
\<close>

theorem LLMResponse_init_defaults:
  "LLMResponse_init no_args
     = Inr \<lparr>response_class = ''llm'', response_message = None, tool_calls = None,
            finished = False, error = None, status_code = 200\<rparr>"
  by (simp add: LLMResponse_init_def no_args_def)

section \<open>Failures of the transport adapter\<close>

lemma str_nat_nonempty: "str_nat n \<noteq> []"
  by (subst str_nat.simps) simp

text \<open>
  C8. Whatever the outbound call does, \<open>send_request\<close> returns a \<open>Response\<close>. When the
  call fails below HTTP (no connection, timeout) or the reply has a status outside
  200..299, the response has \<open>finished = False\<close>, a non-empty \<open>error\<close>, and as
  \<open>status_code\<close> the observed status, or the sentinel when no status was observed.
\<close>

theorem send_request_failure:
  "(post base_url agent_name query = ConnectionFailure \<or> post base_url agent_name query = Timeout \<longrightarrow>
      (\<exists>cause. cause \<noteq> ''''
         \<and> send_request post sentinel agent_name query base_url = error_response cause sentinel)
      \<and> \<not> finished (send_request post sentinel agent_name query base_url)
      \<and> status_code (send_request post sentinel agent_name query base_url) = sentinel)
   \<and> (post base_url agent_name query = HttpReply code body \<and> \<not> (200 \<le> code \<and> code < 300) \<longrightarrow>
      (\<exists>cause. cause \<noteq> ''''
         \<and> send_request post sentinel agent_name query base_url = error_response cause code)
      \<and> \<not> finished (send_request post sentinel agent_name query base_url)
      \<and> status_code (send_request post sentinel agent_name query base_url) = code)"
  by (auto simp: send_request_def error_response_def)

theorem send_request_failure_witness:
  "\<not> finished (send_request (\<lambda>_ _ _. Timeout) 599 ''agent1''
         \<lparr>query_class = ''llm'', llms = None, messages = [[(''role'', ''user'')]],
          tools = None, action_type = ''chat'', message_return_type = ''text''\<rparr>
         ''http://localhost:8000'')
   \<and> status_code (send_request (\<lambda>_ _ _. Timeout) 599 ''agent1''
         \<lparr>query_class = ''llm'', llms = None, messages = [[(''role'', ''user'')]],
          tools = None, action_type = ''chat'', message_return_type = ''text''\<rparr>
         ''http://localhost:8000'') = 599
   \<and> \<not> (200 \<le> (503 :: int) \<and> (503 :: int) < 300)
   \<and> \<not> finished (send_request
         (\<lambda>_ _ _. HttpReply 503
            \<lparr>response_class = ''llm'', response_message = Some ''Service Unavailable'',
             tool_calls = None, finished = True, error = None, status_code = 200\<rparr>)
         599 ''agent1''
         \<lparr>query_class = ''llm'', llms = None, messages = [[(''role'', ''user'')]],
          tools = None, action_type = ''chat'', message_return_type = ''text''\<rparr>
         ''http://localhost:8000'')
   \<and> status_code (send_request
         (\<lambda>_ _ _. HttpReply 503
            \<lparr>response_class = ''llm'', response_message = Some ''Service Unavailable'',
             tool_calls = None, finished = True, error = None, status_code = 200\<rparr>)
         599 ''agent1''
         \<lparr>query_class = ''llm'', llms = None, messages = [[(''role'', ''user'')]],
          tools = None, action_type = ''chat'', message_return_type = ''text''\<rparr>
         ''http://localhost:8000'') = 503"
proof -
  let ?q = "\<lparr>query_class = ''llm'', llms = None,
          messages = [[(''role'', ''user'')]] :: (string \<times> string) list list,
          tools = None, action_type = ''chat'', message_return_type = ''text''\<rparr>"
  let ?r = "\<lparr>response_class = ''llm'', response_message = Some ''Service Unavailable'',
             tool_calls = None :: (string \<times> string) list list option,
             finished = True, error = None, status_code = 200\<rparr>"
  let ?down = "\<lambda>(_ :: string) (_ :: string) (_ :: string LLMQuery). Timeout :: string outcome"
  let ?busy = "\<lambda>(_ :: string) (_ :: string) (_ :: string LLMQuery). HttpReply 503 ?r"
  have h1: "?down ''http://localhost:8000'' ''agent1'' ?q = ConnectionFailure
      \<or> ?down ''http://localhost:8000'' ''agent1'' ?q = Timeout" by simp
  have h2: "?busy ''http://localhost:8000'' ''agent1'' ?q = HttpReply 503 ?r
      \<and> \<not> (200 \<le> (503 :: int) \<and> (503 :: int) < 300)" by simp
  from h1 send_request_failure [of ?down "''http://localhost:8000''" "''agent1''" ?q 599]
  have c1: "\<not> finished (send_request ?down 599 ''agent1'' ?q ''http://localhost:8000'')
      \<and> status_code (send_request ?down 599 ''agent1'' ?q ''http://localhost:8000'') = 599"
    by blast
  from h2 send_request_failure [of ?busy "''http://localhost:8000''" "''agent1''" ?q 599 503 ?r]
  have c2: "\<not> finished (send_request ?busy 599 ''agent1'' ?q ''http://localhost:8000'')
      \<and> status_code (send_request ?busy 599 ''agent1'' ?q ''http://localhost:8000'') = 503"
    by blast
  from h2 c1 c2 show ?thesis by blast
qed

section \<open>The side file of \<open>process_one_func\<close>\<close>

lemma str_split_nonempty: "str_split s sep \<noteq> []"
  by (induction s) (auto simp: Let_def)

lemma str_split_pieces: "p \<in> set (str_split s sep) \<Longrightarrow> sep \<notin> set p"
proof (induction s arbitrary: p)
  case Nil
  then show ?case by simp
next
  case (Cons c cs)
  show ?case
  proof (cases "c = sep")
    case True
    with Cons show ?thesis by auto
  next
    case False
    from str_split_nonempty [of cs sep] obtain q qs where r: "str_split cs sep = q # qs"
      by (cases "str_split cs sep") auto
    with False Cons.prems have "p = c # q \<or> p \<in> set qs" by (auto simp: Let_def)
    with False r Cons.IH show ?thesis by auto
  qed
qed

lemma str_split_single: "str_split s sep = [p] \<Longrightarrow> s = p"
proof (induction s arbitrary: p)
  case Nil
  then show ?case by simp
next
  case (Cons c cs)
  from str_split_nonempty [of cs sep] obtain q qs where r: "str_split cs sep = q # qs"
    by (cases "str_split cs sep") auto
  with Cons.prems have "c \<noteq> sep" "qs = []" "p = c # q"
    by (auto simp: Let_def split: if_splits)
  with r Cons.IH [of q] show ?case by simp
qed

lemma str_split_no_sep: "sep \<notin> set s \<Longrightarrow> str_split s sep = [s]"
  by (induction s) (auto simp: Let_def)

lemma last_str_split:
  "s = last (str_split s sep) \<or> (\<exists>pre. s = pre @ [sep] @ last (str_split s sep))"
proof (induction s)
  case Nil
  then show ?case by simp
next
  case (Cons c cs)
  from str_split_nonempty [of cs sep] obtain q qs where r: "str_split cs sep = q # qs"
    by (cases "str_split cs sep") auto
  show ?case
  proof (cases "c = sep")
    case True
    from Cons show ?thesis
    proof
      assume "cs = last (str_split cs sep)"
      with True r have "c # cs = [] @ [sep] @ last (str_split (c # cs) sep)" by simp
      then show ?thesis by blast
    next
      assume "\<exists>pre. cs = pre @ [sep] @ last (str_split cs sep)"
      then obtain pre where "cs = pre @ [sep] @ last (str_split cs sep)" ..
      with True r have "c # cs = (c # pre) @ [sep] @ last (str_split (c # cs) sep)" by simp
      then show ?thesis by blast
    qed
  next
    case False
    show ?thesis
    proof (cases "qs = []")
      case True
      with r have "cs = q" by (simp add: str_split_single)
      with \<open>c \<noteq> sep\<close> r True show ?thesis by (simp add: Let_def)
    next
      case more: False
      with False r have l: "last (str_split (c # cs) sep) = last (str_split cs sep)"
        by (simp add: Let_def)
      from Cons.IH show ?thesis
      proof
        assume a: "cs = last (str_split cs sep)"
        have "last (str_split cs sep) \<in> set (str_split cs sep)"
          using str_split_nonempty by simp
        then have "sep \<notin> set (last (str_split cs sep))" by (rule str_split_pieces)
        with a have "sep \<notin> set cs" by simp
        then have "str_split cs sep = [cs]" by (rule str_split_no_sep)
        with r more show ?thesis by simp
      next
        assume "\<exists>pre. cs = pre @ [sep] @ last (str_split cs sep)"
        then obtain pre where "cs = pre @ [sep] @ last (str_split cs sep)" ..
        with l have "c # cs = (c # pre) @ [sep] @ last (str_split (c # cs) sep)" by simp
        then show ?thesis by blast
      qed
    qed
  qed
qed

lemma path_join_relative:
  "\<not> startswith b ''/'' \<Longrightarrow>
     path_join a b = (if a = [] \<or> endswith a ''/'' then a else a @ ''/'') @ b"
  by (simp add: path_join_def)

lemma programs_dir:
  "path_join module_dir ''programs''
     = (if module_dir = [] \<or> endswith module_dir ''/'' then module_dir else module_dir @ ''/'')
       @ ''programs''"
  by (simp add: path_join_def startswith_def)

lemma endswith_append: "endswith (a @ b) p \<longleftrightarrow> (if length p \<le> length b then endswith b p else endswith (a @ b) p)"
  by (auto simp: endswith_def)

lemma program_file:
  "path_join (path_join module_dir ''programs'') (''program'' @ task_id @ ''.py'')
     = (if module_dir = [] \<or> endswith module_dir ''/'' then module_dir else module_dir @ ''/'')
       @ ''programs/program'' @ task_id @ ''.py''"
proof -
  let ?d = "if module_dir = [] \<or> endswith module_dir ''/'' then module_dir else module_dir @ ''/''"
  have "\<not> endswith (?d @ ''programs'') ''/''"
    by (subst endswith_append) (simp add: endswith_def)
  moreover have "?d @ ''programs'' \<noteq> []" by simp
  moreover have "\<not> startswith (''program'' @ task_id @ ''.py'') ''/''"
    by (simp add: startswith_def)
  ultimately show ?thesis
    unfolding programs_dir by (simp add: path_join_def)
qed

lemma bind_err_Inr [simp]: "bind_err (Inr x) f = f x"
  by (simp add: bind_err_def)

lemma bind_err_Inl [simp]: "bind_err (Inl e) f = Inl e"
  by (simp add: bind_err_def)

lemma bind_err_eq_Inr: "bind_err m f = Inr y \<longleftrightarrow> (\<exists>x. m = Inr x \<and> f x = Inr y)"
  by (cases m) simp_all

lemma subscript_eq_Inr [simp]: "subscript d k = Inr v \<longleftrightarrow> d k = Some v"
  by (simp add: subscript_def split: option.splits)

lemma index_last_str_split [simp]:
  "index_last (str_split s sep) = Inr (last (str_split s sep))"
  by (simp add: index_last_def str_split_nonempty)

lemma open_w_eq_Inr:
  "open_w w path = Inr w1 \<longleftrightarrow> can_write w path \<and> w1 = w\<lparr>files := (files w)(path \<mapsto> [])\<rparr>"
  by (auto simp: open_w_def)

lemma file_write_open:
  "file_write (w\<lparr>files := (files w)(path \<mapsto> c)\<rparr>) path data
     = w\<lparr>files := (files w)(path \<mapsto> c @ data)\<rparr>"
  by (simp add: file_write_def)

lemma process_one_func_success:
  assumes "process_one_func table module_dir data meta_data w = Inr (prediction, w')"
  shows "\<exists>new_agent prompt out test entry_point task_id.
           table (agent_type meta_data) = Some new_agent
         \<and> data ''prompt'' = Some prompt \<and> new_agent (on_aios meta_data) prompt = Inr out
         \<and> data ''test'' = Some test \<and> data ''entry_point'' = Some entry_point
         \<and> data ''task_id'' = Some task_id
         \<and> can_write w (program_path module_dir (last (str_split task_id CHR ''/'')))
         \<and> w' = w\<lparr>files := (files w)
               (program_path module_dir (last (str_split task_id CHR ''/'')) \<mapsto>
                  prompt @ parse_result out @ [newline] @ test @ [newline]
                    @ ''check('' @ entry_point @ '')'')\<rparr>
         \<and> prediction = [(''task_id'', task_id), (''completion'', parse_result out)]"
  using assms
  unfolding process_one_func_def Let_def program_file program_path_def [symmetric]
  by (auto simp: bind_err_eq_Inr open_w_eq_Inr file_write_open)

lemma process_one_func_total:
  assumes "table (agent_type meta_data) = Some new_agent"
    and "data ''prompt'' = Some prompt" and "new_agent (on_aios meta_data) prompt = Inr out"
    and "data ''test'' = Some test" and "data ''entry_point'' = Some entry_point"
    and "data ''task_id'' = Some task_id"
    and "can_write w (program_path module_dir (last (str_split task_id CHR ''/'')))"
  shows "process_one_func table module_dir data meta_data w
     = Inr ([(''task_id'', task_id), (''completion'', parse_result out)],
            w\<lparr>files := (files w)
               (program_path module_dir (last (str_split task_id CHR ''/'')) \<mapsto>
                  prompt @ parse_result out @ [newline] @ test @ [newline]
                    @ ''check('' @ entry_point @ '')'')\<rparr>)"
  using assms
  unfolding process_one_func_def Let_def program_file program_path_def [symmetric]
  by (simp add: subscript_def open_w_def file_write_open)

lemma last_str_split_unique:
  assumes "sep \<notin> set stem"
  shows "last (str_split (pre @ sep # stem) sep) = stem"
proof (induction pre)
  case Nil
  from assms show ?case by (simp add: str_split_no_sep)
next
  case (Cons c pre)
  let ?r = "str_split (pre @ sep # stem) sep"
  show ?case
  proof (cases "c = sep")
    case True
    with Cons show ?thesis by (simp add: str_split_nonempty)
  next
    case False
    have "tl ?r \<noteq> []"
    proof
      assume "tl ?r = []"
      with str_split_nonempty [of "pre @ sep # stem" sep] have "?r = [hd ?r]"
        by (cases ?r) auto
      then have "pre @ sep # stem = hd ?r" by (rule str_split_single)
      moreover have "hd ?r \<in> set ?r" using str_split_nonempty by simp
      then have "sep \<notin> set (hd ?r)" by (rule str_split_pieces)
      ultimately show False by (metis in_set_conv_decomp)
    qed
    with False Cons show ?thesis by (simp add: Let_def last_tl)
  qed
qed

lemma task_stem:
  "CHR ''/'' \<notin> set stem \<and> (task_id = stem \<or> (\<exists>pre. task_id = pre @ ''/'' @ stem))
     \<longleftrightarrow> stem = last (str_split task_id CHR ''/'')"
proof
  assume a: "CHR ''/'' \<notin> set stem \<and> (task_id = stem \<or> (\<exists>pre. task_id = pre @ ''/'' @ stem))"
  then show "stem = last (str_split task_id CHR ''/'')"
    by (auto simp: str_split_no_sep last_str_split_unique)
next
  assume s: "stem = last (str_split task_id CHR ''/'')"
  have "last (str_split task_id CHR ''/'') \<in> set (str_split task_id CHR ''/'')"
    using str_split_nonempty by simp
  then have "CHR ''/'' \<notin> set (last (str_split task_id CHR ''/''))" by (rule str_split_pieces)
  with s last_str_split [of task_id "CHR ''/''"]
  show "CHR ''/'' \<notin> set stem \<and> (task_id = stem \<or> (\<exists>pre. task_id = pre @ ''/'' @ stem))"
    by simp
qed

text \<open>
  C5. When \<open>process_one_func\<close> returns, the record had its four fields and the agent
  answered; the side file is \<open>program<stem>.py\<close> in the directory \<open>programs\<close>,
  where \<open>stem\<close> is what follows the last \<open>/\<close> of the task identifier (all of it when
  there is none); its content is the prompt, the extracted answer, a newline, the test
  code, a newline and \<open>check(<entry_point>)\<close>; no other file changes; and the result
  holds the full task identifier and the extracted answer. Conversely, when the fields
  are present, the agent answers and the file can be opened, the function returns
  exactly that.
\<close>

theorem process_one_func_artifact:
  "(process_one_func table module_dir data meta_data w = Inr (prediction, w') \<longrightarrow>
      (\<exists>new_agent prompt out test entry_point task_id stem.
           table (agent_type meta_data) = Some new_agent
         \<and> data ''prompt'' = Some prompt \<and> new_agent (on_aios meta_data) prompt = Inr out
         \<and> data ''test'' = Some test \<and> data ''entry_point'' = Some entry_point
         \<and> data ''task_id'' = Some task_id
         \<and> CHR ''/'' \<notin> set stem \<and> (task_id = stem \<or> (\<exists>pre. task_id = pre @ ''/'' @ stem))
         \<and> w' = w\<lparr>files := (files w)(program_path module_dir stem \<mapsto>
                  prompt @ parse_result out @ [newline] @ test @ [newline]
                    @ ''check('' @ entry_point @ '')'')\<rparr>
         \<and> prediction = [(''task_id'', task_id), (''completion'', parse_result out)]))
   \<and> (table (agent_type meta_data) = Some agent_of
        \<and> data ''prompt'' = Some p \<and> agent_of (on_aios meta_data) p = Inr answer
        \<and> data ''test'' = Some t \<and> data ''entry_point'' = Some e \<and> data ''task_id'' = Some i
        \<and> CHR ''/'' \<notin> set s \<and> (i = s \<or> (\<exists>pre. i = pre @ ''/'' @ s))
        \<and> can_write w (program_path module_dir s) \<longrightarrow>
      process_one_func table module_dir data meta_data w
        = Inr ([(''task_id'', i), (''completion'', parse_result answer)],
               w\<lparr>files := (files w)(program_path module_dir s \<mapsto>
                  p @ parse_result answer @ [newline] @ t @ [newline]
                    @ ''check('' @ e @ '')'')\<rparr>))"
proof (intro conjI impI)
  assume "process_one_func table module_dir data meta_data w = Inr (prediction, w')"
  from process_one_func_success [OF this]
  obtain new_agent prompt out test entry_point task_id where
    f: "table (agent_type meta_data) = Some new_agent"
      "data ''prompt'' = Some prompt" "new_agent (on_aios meta_data) prompt = Inr out"
      "data ''test'' = Some test" "data ''entry_point'' = Some entry_point"
      "data ''task_id'' = Some task_id"
      "w' = w\<lparr>files := (files w)
               (program_path module_dir (last (str_split task_id CHR ''/'')) \<mapsto>
                  prompt @ parse_result out @ [newline] @ test @ [newline]
                    @ ''check('' @ entry_point @ '')'')\<rparr>"
      "prediction = [(''task_id'', task_id), (''completion'', parse_result out)]"
    by blast
  define stem where "stem = last (str_split task_id CHR ''/'')"
  then have "CHR ''/'' \<notin> set stem \<and> (task_id = stem \<or> (\<exists>pre. task_id = pre @ ''/'' @ stem))"
    by (simp only: task_stem)
  with f show "\<exists>new_agent prompt out test entry_point task_id stem.
           table (agent_type meta_data) = Some new_agent
         \<and> data ''prompt'' = Some prompt \<and> new_agent (on_aios meta_data) prompt = Inr out
         \<and> data ''test'' = Some test \<and> data ''entry_point'' = Some entry_point
         \<and> data ''task_id'' = Some task_id
         \<and> CHR ''/'' \<notin> set stem \<and> (task_id = stem \<or> (\<exists>pre. task_id = pre @ ''/'' @ stem))
         \<and> w' = w\<lparr>files := (files w)(program_path module_dir stem \<mapsto>
                  prompt @ parse_result out @ [newline] @ test @ [newline]
                    @ ''check('' @ entry_point @ '')'')\<rparr>
         \<and> prediction = [(''task_id'', task_id), (''completion'', parse_result out)]"
    unfolding stem_def by blast
next
  assume a: "table (agent_type meta_data) = Some agent_of
        \<and> data ''prompt'' = Some p \<and> agent_of (on_aios meta_data) p = Inr answer
        \<and> data ''test'' = Some t \<and> data ''entry_point'' = Some e \<and> data ''task_id'' = Some i
        \<and> CHR ''/'' \<notin> set s \<and> (i = s \<or> (\<exists>pre. i = pre @ ''/'' @ s))
        \<and> can_write w (program_path module_dir s)"
  then have "CHR ''/'' \<notin> set s \<and> (i = s \<or> (\<exists>pre. i = pre @ ''/'' @ s))" by blast
  then have s: "s = last (str_split i CHR ''/'')" by (rule task_stem [THEN iffD1])
  from a show "process_one_func table module_dir data meta_data w
        = Inr ([(''task_id'', i), (''completion'', parse_result answer)],
               w\<lparr>files := (files w)(program_path module_dir s \<mapsto>
                  p @ parse_result answer @ [newline] @ t @ [newline]
                    @ ''check('' @ e @ '')'')\<rparr>)"
    unfolding s
    by (intro process_one_func_total [where new_agent = agent_of and prompt = p]) simp_all
qed

theorem process_one_func_artifact_witness:
  "process_one_func scenario_table ''/bench'' scenario_data scenario_meta scenario_world
     = Inr ([(''task_id'', ''A/1''), (''completion'', ''    return x'')],
            scenario_world\<lparr>files := (files scenario_world)
              (''/bench/programs/program1.py'' \<mapsto> scenario_program)\<rparr>)
   \<and> (\<exists>new_agent prompt out test entry_point task_id stem.
           scenario_table (agent_type scenario_meta) = Some new_agent
         \<and> scenario_data ''prompt'' = Some prompt
         \<and> new_agent (on_aios scenario_meta) prompt = Inr out
         \<and> scenario_data ''test'' = Some test \<and> scenario_data ''entry_point'' = Some entry_point
         \<and> scenario_data ''task_id'' = Some task_id
         \<and> CHR ''/'' \<notin> set stem \<and> (task_id = stem \<or> (\<exists>pre. task_id = pre @ ''/'' @ stem))
         \<and> scenario_world\<lparr>files := (files scenario_world)
              (''/bench/programs/program1.py'' \<mapsto> scenario_program)\<rparr>
             = scenario_world\<lparr>files := (files scenario_world)(program_path ''/bench'' stem \<mapsto>
                  prompt @ parse_result out @ [newline] @ test @ [newline]
                    @ ''check('' @ entry_point @ '')'')\<rparr>
         \<and> [(''task_id'', ''A/1''), (''completion'', ''    return x'')]
             = [(''task_id'', task_id), (''completion'', parse_result out)])"
proof -
  let ?agent = "\<lambda>(_ :: bool) (_ :: string).
      Inr ''<FINAL_ANSWER>    return x</FINAL_ANSWER>'' :: error + string"
  have pr: "parse_result ''<FINAL_ANSWER>    return x</FINAL_ANSWER>'' = ''    return x''"
    by code_simp
  have pp: "program_path ''/bench'' ''1'' = ''/bench/programs/program1.py''"
    by (simp add: program_path_def endswith_def)
  have ex: "\<exists>pre. ''A/1'' = pre @ ''/'' @ ''1''"
    by (rule exI [where x = "''A''"]) simp
  have hyp: "scenario_table (agent_type scenario_meta) = Some ?agent
        \<and> scenario_data ''prompt'' = Some (''def f(x):'' @ [newline])
        \<and> ?agent (on_aios scenario_meta) (''def f(x):'' @ [newline])
            = Inr ''<FINAL_ANSWER>    return x</FINAL_ANSWER>''
        \<and> scenario_data ''test'' = Some ''assert f(1)==1''
        \<and> scenario_data ''entry_point'' = Some ''f''
        \<and> scenario_data ''task_id'' = Some ''A/1''
        \<and> CHR ''/'' \<notin> set ''1'' \<and> (''A/1'' = ''1'' \<or> (\<exists>pre. ''A/1'' = pre @ ''/'' @ ''1''))
        \<and> can_write scenario_world (program_path ''/bench'' ''1'')"
    by (intro conjI disjI2 ex)
      (simp_all add: scenario_table_def scenario_meta_def scenario_data_def scenario_world_def)
  have "process_one_func scenario_table ''/bench'' scenario_data scenario_meta scenario_world
      = Inr ([(''task_id'', ''A/1''),
              (''completion'', parse_result ''<FINAL_ANSWER>    return x</FINAL_ANSWER>'')],
             scenario_world\<lparr>files := (files scenario_world)(program_path ''/bench'' ''1'' \<mapsto>
                 (''def f(x):'' @ [newline])
                 @ parse_result ''<FINAL_ANSWER>    return x</FINAL_ANSWER>''
                 @ [newline] @ ''assert f(1)==1'' @ [newline] @ ''check('' @ ''f'' @ '')'')\<rparr>)"
    by (rule process_one_func_artifact [where table = scenario_table and module_dir = "''/bench''"
          and data = scenario_data and meta_data = scenario_meta and w = scenario_world
          and agent_of = ?agent and p = "''def f(x):'' @ [newline]"
          and answer = "''<FINAL_ANSWER>    return x</FINAL_ANSWER>''"
          and t = "''assert f(1)==1''" and e = "''f''" and i = "''A/1''" and s = "''1''",
          THEN conjunct2, THEN mp, OF hyp])
  then have run: "process_one_func scenario_table ''/bench'' scenario_data scenario_meta
        scenario_world
      = Inr ([(''task_id'', ''A/1''), (''completion'', ''    return x'')],
            scenario_world\<lparr>files := (files scenario_world)
              (''/bench/programs/program1.py'' \<mapsto> scenario_program)\<rparr>)"
    unfolding pr pp by (simp add: scenario_program_def)
  show ?thesis
    by (rule conjI [OF run process_one_func_artifact [where table = scenario_table
          and module_dir = "''/bench''" and data = scenario_data and meta_data = scenario_meta
          and w = scenario_world, THEN conjunct1, THEN mp, OF run]])
qed

section \<open>The result writer\<close>

lemma file_body_Cons:
  "file_body (r # rs) = (json_dumps r @ [newline]) @ file_body rs"
  by (simp add: file_body_def)

lemma write_lines_open:
  "write_lines (w\<lparr>files := (files w)(path \<mapsto> c)\<rparr>) path result_list
     = w\<lparr>files := (files w)(path \<mapsto> c @ file_body result_list)\<rparr>"
proof (induction result_list arbitrary: c)
  case Nil
  then show ?case by (simp add: file_body_def)
next
  case (Cons r rs)
  have "write_lines (w\<lparr>files := (files w)(path \<mapsto> c)\<rparr>) path (r # rs)
      = write_lines (w\<lparr>files := (files w)(path \<mapsto> c @ json_dumps r @ [newline])\<rparr>) path rs"
    by (simp add: file_write_open)
  also have "\<dots> = w\<lparr>files := (files w)(path \<mapsto> (c @ json_dumps r @ [newline]) @ file_body rs)\<rparr>"
    by (rule Cons.IH)
  finally show ?case by (simp only: file_body_Cons append_assoc)
qed

lemma write_output_func_eq:
  "write_output_func result_list output_file w =
     (if can_write w output_file
      then Inr (w\<lparr>files := (files w)(output_file \<mapsto> file_body result_list),
                  stdout := stdout w @ [''Write results num: '' @ str_nat (length result_list)]\<rparr>)
      else Inl (OSError output_file))"
  by (simp add: write_output_func_def open_w_def write_lines_open print_def)

lemma digit_char_in: "digit_char d \<in> set ''0123456789abcdef''"
proof -
  have "d mod 16 < length ''0123456789abcdef''" by simp
  then show ?thesis unfolding digit_char_def by (rule nth_mem)
qed

lemma digit_char_not_newline: "digit_char d \<noteq> newline"
  using digit_char_in [of d] by auto

lemma replace_no_newline: "newline \<notin> set (replace c)"
  by (auto simp: replace_def ESCAPE_DCT_def hex4_def digit_char_not_newline [symmetric]
      split: option.splits if_splits)

lemma encode_no_newline: "newline \<notin> set (encode_basestring_ascii s)"
  by (auto simp: encode_basestring_ascii_def escape_ascii_match_def replace_no_newline)

lemma set_str_join: "set (str_join sep xs) \<subseteq> set sep \<union> (\<Union>x\<in>set xs. set x)"
  by (induction sep xs rule: str_join.induct) auto

lemma json_dumps_no_newline: "newline \<notin> set (json_dumps d)"
proof -
  have "newline \<notin> set (str_join '', ''
      (map (\<lambda>(k, v). encode_basestring_ascii k @ '': '' @ encode_basestring_ascii v) d))"
    using set_str_join [of "'', ''"
        "map (\<lambda>(k, v). encode_basestring_ascii k @ '': '' @ encode_basestring_ascii v) d"]
    by (auto simp: encode_no_newline)
  then show ?thesis by (simp add: json_dumps_def)
qed

lemma str_split_line:
  "sep \<notin> set l \<Longrightarrow> str_split (l @ sep # rest) sep = l # str_split rest sep"
  by (induction l) (auto simp: Let_def)

lemma str_split_lines:
  "(\<forall>l\<in>set ls. sep \<notin> set l)
     \<Longrightarrow> str_split (concat (map (\<lambda>l. l @ [sep]) ls)) sep = ls @ [[]]"
  by (induction ls) (simp_all add: str_split_line)

lemma file_body_lines:
  "str_split (file_body result_list) newline = map json_dumps result_list @ [[]]"
proof -
  have "file_body result_list = concat (map (\<lambda>l. l @ [newline]) (map json_dumps result_list))"
    by (simp add: file_body_def comp_def)
  moreover have "\<forall>l\<in>set (map json_dumps result_list). newline \<notin> set l"
    by (auto simp: json_dumps_no_newline)
  ultimately show ?thesis by (simp only: str_split_lines)
qed

section \<open>Decoding what \<open>json.dumps\<close> wrote\<close>

lemma of_char_less_256: "(of_char c :: nat) < 256"
  by (metis of_char_mod_256 mod_less_divisor zero_less_numeral)

lemma hex_val_table:
  "list_all (\<lambda>k. hex_val (''0123456789abcdef'' ! k) = Some k) [0..<16]"
  by code_simp

lemma hex_val_digit_char: "hex_val (digit_char d) = Some (d mod 16)"
proof -
  have "d mod 16 \<in> set [0..<16]" by simp
  with hex_val_table show ?thesis unfolding digit_char_def list_all_iff by blast
qed

lemma decode_hex4:
  assumes "n < 256"
  shows "decode_chars (backslash # CHR ''u'' # hex4 n @ rest) = cons_char (char_of n) (decode_chars rest)"
proof -
  from assms have z: "n div 4096 mod 16 = 0" "n div 256 mod 16 = 0" by simp_all
  from assms have "n div 16 < 16" by (simp add: less_mult_imp_div_less)
  then have v: "(n div 16 mod 16) * 16 + n mod 16 = n" by simp
  show ?thesis
    apply (simp only: hex4_def append_Cons append_Nil decode_chars.simps)
    apply (simp add: hex_val_digit_char z v assms del: decode_chars.simps)
    done
qed

lemma decode_plain:
  "c \<noteq> dquote \<Longrightarrow> c \<noteq> backslash \<Longrightarrow> \<not> (of_char c :: nat) < 0x20
     \<Longrightarrow> decode_chars (c # rest) = cons_char c (decode_chars rest)"
  by simp

lemma decode_short_escape:
  "e \<noteq> CHR ''u'' \<Longrightarrow> unescape e = Some c
     \<Longrightarrow> decode_chars (backslash # e # rest) = cons_char c (decode_chars rest)"
  by simp

lemma decode_replace:
  "escape_ascii_match c \<Longrightarrow> decode_chars (replace c @ rest) = cons_char c (decode_chars rest)"
proof -
  have u: "decode_chars (backslash # CHR ''u'' # hex4 (of_char c) @ rest)
      = cons_char c (decode_chars rest)"
    using decode_hex4 [of "of_char c" rest] by (simp add: of_char_less_256)
  consider "c = backslash" | "c = dquote" | "c = CHR 0x08" | "c = CHR 0x0C" | "c = newline"
    | "c = CHR 0x0D" | "c = CHR 0x09"
    | "c \<notin> {backslash, dquote, CHR 0x08, CHR 0x0C, newline, CHR 0x0D, CHR 0x09}"
    by blast
  then show ?thesis
  proof cases
    case 8
    then have "replace c = backslash # CHR ''u'' # hex4 (of_char c)"
      by (simp add: replace_def ESCAPE_DCT_def)
    with u show ?thesis by (simp del: decode_chars.simps)
  qed (simp_all add: replace_def ESCAPE_DCT_def unescape_def)
qed

lemma decode_escaped_char:
  "decode_chars ((if escape_ascii_match c then replace c else [c]) @ rest)
     = cons_char c (decode_chars rest)"
proof (cases "escape_ascii_match c")
  case True
  then show ?thesis by (simp add: decode_replace del: decode_chars.simps)
next
  case False
  then have "c \<noteq> dquote" "c \<noteq> backslash" "\<not> (of_char c :: nat) < 0x20"
    by (auto simp: escape_ascii_match_def)
  then have "decode_chars (c # rest) = cons_char c (decode_chars rest)" by (rule decode_plain)
  with False show ?thesis by (simp del: decode_chars.simps)
qed

lemma decode_escaped:
  "decode_chars (concat (map (\<lambda>c. if escape_ascii_match c then replace c else [c]) s)
                   @ dquote # rest) = Some (s, rest)"
proof (induction s)
  case Nil
  show ?case by simp
next
  case (Cons c s)
  have "decode_chars (concat (map (\<lambda>c. if escape_ascii_match c then replace c else [c]) (c # s))
                   @ dquote # rest)
      = decode_chars ((if escape_ascii_match c then replace c else [c])
          @ (concat (map (\<lambda>c. if escape_ascii_match c then replace c else [c]) s) @ dquote # rest))"
    by (simp del: decode_chars.simps)
  also have "\<dots> = cons_char c (decode_chars
      (concat (map (\<lambda>c. if escape_ascii_match c then replace c else [c]) s) @ dquote # rest))"
    by (rule decode_escaped_char)
  also have "\<dots> = Some (c # s, rest)" by (simp only: Cons.IH) (simp add: cons_char_def)
  finally show ?case .
qed

lemma skip_ws_stop: "list_all is_ws sp \<Longrightarrow> \<not> is_ws x \<Longrightarrow> skip_ws (sp @ x # r) = x # r"
  by (induction sp) (simp_all add: skip_ws_def)

lemma expect_found: "list_all is_ws sp \<Longrightarrow> \<not> is_ws x \<Longrightarrow> expect x (sp @ x # r) = Some r"
  by (simp add: expect_def skip_ws_stop)

lemma read_string_encoded:
  "list_all is_ws sp \<Longrightarrow> read_string (sp @ encode_basestring_ascii s @ rest) = Some (s, rest)"
proof -
  assume sp: "list_all is_ws sp"
  have "\<not> is_ws dquote" by (simp add: is_ws_def)
  with sp have "expect dquote (sp @ dquote #
      (concat (map (\<lambda>c. if escape_ascii_match c then replace c else [c]) s) @ dquote # rest))
    = Some (concat (map (\<lambda>c. if escape_ascii_match c then replace c else [c]) s) @ dquote # rest)"
    by (rule expect_found)
  then show ?thesis
    by (simp add: read_string_def encode_basestring_ascii_def decode_escaped del: decode_chars.simps)
qed

lemma str_join_Cons:
  "xs \<noteq> [] \<Longrightarrow> str_join sep (x # xs) = x @ sep @ str_join sep xs"
  by (cases xs) simp_all

lemma expect_here: "\<not> is_ws x \<Longrightarrow> expect x (x # r) = Some r"
  using expect_found [of "[]" x r] by simp

lemma read_string_after_space:
  "read_string (CHR '' '' # encode_basestring_ascii s @ rest) = Some (s, rest)"
  using read_string_encoded [of "[CHR '' '']" s rest] by (simp add: is_ws_def)

lemma parse_pairs_last:
  assumes "list_all is_ws sp"
  shows "parse_pairs (sp @ encode_basestring_ascii k @ '': '' @ encode_basestring_ascii v @ ''}'')
           = Some [(k, v)]"
proof -
  have 1: "read_string (sp @ encode_basestring_ascii k @ '': '' @ encode_basestring_ascii v @ ''}'')
      = Some (k, '': '' @ encode_basestring_ascii v @ ''}'')"
    using assms by (rule read_string_encoded)
  have 2: "expect CHR '':'' ('': '' @ encode_basestring_ascii v @ ''}'')
      = Some (CHR '' '' # encode_basestring_ascii v @ ''}'')"
    using expect_here [of "CHR '':''"] by (simp add: is_ws_def)
  have 3: "read_string (CHR '' '' # encode_basestring_ascii v @ ''}'') = Some (v, ''}'')"
    by (rule read_string_after_space)
  have 4: "skip_ws ''}'' = ''}''" "skip_ws [] = []" by (simp_all add: skip_ws_def is_ws_def)
  show ?thesis
    apply (subst parse_pairs.simps)
    apply (simp only: 1 2 3 4 option.case prod.case list.case)
    apply simp
    done
qed

lemma parse_pairs_more:
  assumes "list_all is_ws sp" and "parse_pairs (CHR '' '' # tail) = Some d"
  shows "parse_pairs (sp @ encode_basestring_ascii k @ '': '' @ encode_basestring_ascii v
                        @ '', '' @ tail) = Some ((k, v) # d)"
proof -
  have 1: "read_string (sp @ encode_basestring_ascii k @ '': '' @ encode_basestring_ascii v
                        @ '', '' @ tail)
      = Some (k, '': '' @ encode_basestring_ascii v @ '', '' @ tail)"
    using assms(1) by (rule read_string_encoded)
  have 2: "expect CHR '':'' ('': '' @ encode_basestring_ascii v @ '', '' @ tail)
      = Some (CHR '' '' # encode_basestring_ascii v @ '', '' @ tail)"
    using expect_here [of "CHR '':''"] by (simp add: is_ws_def)
  have 3: "read_string (CHR '' '' # encode_basestring_ascii v @ '', '' @ tail)
      = Some (v, '', '' @ tail)"
    by (rule read_string_after_space)
  have 4: "skip_ws ('', '' @ tail) = CHR '','' # CHR '' '' # tail"
    by (simp add: skip_ws_def is_ws_def)
  show ?thesis
    apply (subst parse_pairs.simps)
    apply (simp only: 1 2 3 4 assms(2) option.case prod.case list.case)
    apply simp
    done
qed

lemma parse_pairs_dumped:
  assumes "d \<noteq> []" and "list_all is_ws sp"
  shows "parse_pairs (sp @ str_join '', ''
            (map (\<lambda>(k, v). encode_basestring_ascii k @ '': '' @ encode_basestring_ascii v) d)
          @ ''}'') = Some d"
  using assms
proof (induction d arbitrary: sp rule: list_nonempty_induct)
  case (single p)
  obtain k v where p: "p = (k, v)" by (cases p)
  from single parse_pairs_last [of sp k v] show ?case by (simp add: p)
next
  case (cons p d)
  obtain k v where p: "p = (k, v)" by (cases p)
  let ?enc = "\<lambda>(k, v). encode_basestring_ascii k @ '': '' @ encode_basestring_ascii v"
  have "parse_pairs ([CHR '' ''] @ str_join '', '' (map ?enc d) @ ''}'') = Some d"
    by (rule cons.IH) (simp add: is_ws_def)
  then have "parse_pairs (CHR '' '' # (str_join '', '' (map ?enc d) @ ''}'')) = Some d" by simp
  with cons.prems
  have "parse_pairs (sp @ encode_basestring_ascii k @ '': '' @ encode_basestring_ascii v
                        @ '', '' @ (str_join '', '' (map ?enc d) @ ''}'')) = Some ((k, v) # d)"
    by (rule parse_pairs_more)
  moreover from cons.hyps have "str_join '', '' (map ?enc (p # d))
      = (encode_basestring_ascii k @ '': '' @ encode_basestring_ascii v) @ '', ''
          @ str_join '', '' (map ?enc d)"
    by (simp add: p str_join_Cons)
  ultimately show ?case by (simp add: p)
qed

lemma json_loads_dumps: "json_loads (json_dumps d) = Some d"
proof (cases "d = []")
  case True
  have "expect CHR ''{'' ''{}'' = Some ''}''"
    using expect_here [of "CHR ''{''" "''}''"] by (simp add: is_ws_def)
  moreover have "skip_ws ''}'' = ''}''" "skip_ws [] = []"
    by (simp_all add: skip_ws_def is_ws_def)
  ultimately show ?thesis using True by (simp add: json_loads_def json_dumps_def)
next
  case False
  let ?body = "str_join '', ''
      (map (\<lambda>(k, v). encode_basestring_ascii k @ '': '' @ encode_basestring_ascii v) d) @ ''}''"
  from False obtain k v d' where d: "d = (k, v) # d'" by (cases d) auto
  have "\<exists>t. ?body = dquote # t"
    by (cases d') (simp_all add: d encode_basestring_ascii_def)
  then obtain t where t: "?body = dquote # t" ..
  have 1: "expect CHR ''{'' (''{'' @ ?body) = Some ?body"
    using expect_here [of "CHR ''{''" ?body] by (simp add: is_ws_def)
  have 2: "skip_ws ?body = dquote # t" unfolding t by (simp add: skip_ws_def is_ws_def)
  have 3: "parse_pairs ?body = Some d"
    using parse_pairs_dumped [OF False, of "[]"] by simp
  have "json_dumps d = ''{'' @ ?body" by (simp add: json_dumps_def)
  then show ?thesis
    unfolding json_loads_def by (simp only: 1 2 3 option.case list.case) simp
qed

lemma file_lines_body: "file_lines (file_body result_list) = map json_dumps result_list"
  by (simp add: file_lines_def file_body_lines)

text \<open>
  C6. When the output path can be opened, \<open>write_output_func\<close> succeeds and leaves in
  it, whatever it held before, one encoded record and a newline for each result in list
  order, no other file being touched (otherwise it raises and writes nothing). The lines
  of that content are exactly the encodings of the results, as many as there are
  results, and each line on its own decodes to its record.
\<close>

theorem write_output_func_lines:
  "(can_write w output_file \<longrightarrow>
      (\<exists>w'. write_output_func result_list output_file w = Inr w'
         \<and> files w' = (files w)(output_file \<mapsto> file_body result_list)))
   \<and> (\<not> can_write w output_file \<longrightarrow>
        write_output_func result_list output_file w = Inl (OSError output_file))
   \<and> file_lines (file_body result_list) = map json_dumps result_list
   \<and> length (file_lines (file_body result_list)) = length result_list
   \<and> map json_loads (file_lines (file_body result_list)) = map Some result_list"
proof (intro conjI impI)
  assume "can_write w output_file"
  then show "\<exists>w'. write_output_func result_list output_file w = Inr w'
         \<and> files w' = (files w)(output_file \<mapsto> file_body result_list)"
    by (simp add: write_output_func_eq)
next
  assume "\<not> can_write w output_file"
  then show "write_output_func result_list output_file w = Inl (OSError output_file)"
    by (simp add: write_output_func_eq)
next
  show "file_lines (file_body result_list) = map json_dumps result_list"
    by (rule file_lines_body)
  then show "length (file_lines (file_body result_list)) = length result_list" by simp
  show "map json_loads (file_lines (file_body result_list)) = map Some result_list"
    by (simp add: file_lines_body json_loads_dumps)
qed

theorem write_output_func_lines_witness:
  "can_write (scenario_world\<lparr>files := [''out.jsonl'' \<mapsto> ''stale'']\<rparr>) ''out.jsonl''
   \<and> (\<exists>w'. write_output_func
             [[(''task_id'', ''A/1''), (''completion'', ''    return x'')],
              [(''task_id'', ''A/2''), (''completion'', ''    return x'')]]
             ''out.jsonl'' (scenario_world\<lparr>files := [''out.jsonl'' \<mapsto> ''stale'']\<rparr>) = Inr w'
         \<and> files w' = (files (scenario_world\<lparr>files := [''out.jsonl'' \<mapsto> ''stale'']\<rparr>))
               (''out.jsonl'' \<mapsto> file_body
                  [[(''task_id'', ''A/1''), (''completion'', ''    return x'')],
                   [(''task_id'', ''A/2''), (''completion'', ''    return x'')]]))
   \<and> \<not> can_write (scenario_world\<lparr>can_write := \<lambda>_. False\<rparr>) ''out.jsonl''
   \<and> write_output_func [] ''out.jsonl'' (scenario_world\<lparr>can_write := \<lambda>_. False\<rparr>)
       = Inl (OSError ''out.jsonl'')"
proof -
  let ?w = "scenario_world\<lparr>files := [''out.jsonl'' \<mapsto> ''stale'']\<rparr>"
  let ?ro = "scenario_world\<lparr>can_write := \<lambda>_. False\<rparr>"
  let ?rs = "[[(''task_id'', ''A/1''), (''completion'', ''    return x'')],
              [(''task_id'', ''A/2''), (''completion'', ''    return x'')]]"
  have h1: "can_write ?w ''out.jsonl''" by (simp add: scenario_world_def)
  have h2: "\<not> can_write ?ro ''out.jsonl''" by simp
  note c1 = write_output_func_lines [where w = ?w and output_file = "''out.jsonl''"
      and result_list = ?rs, THEN conjunct1, THEN mp, OF h1]
  note c2 = write_output_func_lines [where w = ?ro and output_file = "''out.jsonl''"
      and result_list = "[]", THEN conjunct2, THEN conjunct1, THEN mp, OF h2]
  show ?thesis by (rule conjI [OF h1 conjI [OF c1 conjI [OF h2 c2]]])
qed

text \<open>
  C7. A second run of \<open>write_output_func\<close> with the same list and path, after a first
  one that succeeded, succeeds and leaves every file, the output file included, with the
  content it had after the first run.
\<close>

theorem write_output_func_idempotent:
  "write_output_func result_list output_file w = Inr once \<longrightarrow>
     (\<exists>twice. write_output_func result_list output_file once = Inr twice
        \<and> files twice = files once
        \<and> files twice output_file = Some (file_body result_list))"
proof
  assume a: "write_output_func result_list output_file w = Inr once"
  then have cw: "can_write w output_file"
    by (simp add: write_output_func_eq split: if_splits)
  with a have o: "once = w\<lparr>files := (files w)(output_file \<mapsto> file_body result_list),
      stdout := stdout w @ [''Write results num: '' @ str_nat (length result_list)]\<rparr>"
    by (simp add: write_output_func_eq)
  then have "can_write once output_file" using cw by simp
  then have "write_output_func result_list output_file once
      = Inr (once\<lparr>files := (files once)(output_file \<mapsto> file_body result_list),
          stdout := stdout once @ [''Write results num: '' @ str_nat (length result_list)]\<rparr>)"
    by (simp add: write_output_func_eq)
  moreover have "(files once)(output_file \<mapsto> file_body result_list) = files once"
    unfolding o by simp
  ultimately show "\<exists>twice. write_output_func result_list output_file once = Inr twice
        \<and> files twice = files once \<and> files twice output_file = Some (file_body result_list)"
    unfolding o by simp
qed

theorem write_output_func_idempotent_witness:
  "write_output_func [[(''task_id'', ''A/1''), (''completion'', ''    return x'')]] ''out.jsonl''
       (scenario_world\<lparr>files := [''out.jsonl'' \<mapsto> ''stale'']\<rparr>)
     = Inr (scenario_world
         \<lparr>files := [''out.jsonl'' \<mapsto>
              file_body [[(''task_id'', ''A/1''), (''completion'', ''    return x'')]]],
          stdout := [''Write results num: 1'']\<rparr>)
   \<and> (\<exists>twice. write_output_func [[(''task_id'', ''A/1''), (''completion'', ''    return x'')]]
             ''out.jsonl''
             (scenario_world
               \<lparr>files := [''out.jsonl'' \<mapsto>
                    file_body [[(''task_id'', ''A/1''), (''completion'', ''    return x'')]]],
                stdout := [''Write results num: 1'']\<rparr>) = Inr twice
         \<and> files twice = files (scenario_world
               \<lparr>files := [''out.jsonl'' \<mapsto>
                    file_body [[(''task_id'', ''A/1''), (''completion'', ''    return x'')]]],
                stdout := [''Write results num: 1'']\<rparr>)
         \<and> files twice ''out.jsonl''
             = Some (file_body [[(''task_id'', ''A/1''), (''completion'', ''    return x'')]]))"
proof -
  let ?rs = "[[(''task_id'', ''A/1''), (''completion'', ''    return x'')]]"
  let ?w = "scenario_world\<lparr>files := [''out.jsonl'' \<mapsto> ''stale'']\<rparr>"
  let ?w1 = "scenario_world\<lparr>files := [''out.jsonl'' \<mapsto> file_body ?rs],
      stdout := [''Write results num: 1'']\<rparr>"
  have n: "str_nat (Suc 0) = ''1''" by code_simp
  have h: "write_output_func ?rs ''out.jsonl'' ?w = Inr ?w1"
    by (simp add: write_output_func_eq n scenario_world_def)
  show ?thesis
    by (rule conjI [OF h write_output_func_idempotent [where w = ?w and once = ?w1
          and result_list = ?rs and output_file = "''out.jsonl''", THEN mp, OF h]])
qed


end
